theory Spec2Isabelle
  imports Complex_Main "HOL-Library.Word"
begin

section \<open>Numeric types of the kernel and the host\<close>

text \<open>
  The compute kernel of \<^verbatim>\<open>src/src/StlOperations.js\<close> works on 32-bit floats and
  32-bit unsigned integers. Unsigned integers are 32-bit words, so \<open>idx * 3u\<close> wraps
  as it does on the device. A float is modelled by the real number it denotes:
  rounding, infinities and NaN are outside this model, and every statement below about
  coordinates is a statement of exact real arithmetic.
\<close>

unbundle bit_operations_syntax

type_synonym f32 = real
type_synonym u32 = "32 word"
type_synonym byte = "8 word"

text \<open>
  Failures: an access outside a storage buffer in the kernel, a JavaScript
  \<^verbatim>\<open>TypeError\<close> (a member of \<^verbatim>\<open>null\<close> is read) or \<^verbatim>\<open>RangeError\<close> (a
  \<^verbatim>\<open>DataView\<close> write past the end), and the use of a destroyed or ill-sized device buffer.
\<close>

datatype error = OutOfBounds | TypeError | RangeError | InvalidBuffer

text \<open>Sequencing of steps that may fail: the first error ends the computation.\<close>

definition bind_result :: "error + 'a \<Rightarrow> ('a \<Rightarrow> error + 'b) \<Rightarrow> error + 'b" where
  "bind_result m f = (case m of Inl e \<Rightarrow> Inl e | Inr v \<Rightarrow> f v)"

section \<open>The compute kernel (COMPUTE_SHADER)\<close>

text \<open>The uniform struct \<^verbatim>\<open>Params\<close>; \<open>pad\<close> is the field \<^verbatim>\<open>_pad\<close>.\<close>

record Params =
  operation :: u32
  param_value :: f32
  vertex_count :: u32
  pad :: u32

text \<open>WGSL \<^verbatim>\<open>clamp(e, low, high)\<close> is \<^verbatim>\<open>min(max(e, low), high)\<close>.\<close>

definition clamp :: "f32 \<Rightarrow> f32 \<Rightarrow> f32 \<Rightarrow> f32" where
  "clamp e low high = min (max e low) high"

text \<open>
  Reading and writing a runtime-sized storage array. An index outside the buffer is
  implementation-defined on the device; the model reports it as \<open>OutOfBounds\<close>, so
  that the absence of such accesses can be stated.
\<close>

definition load :: "f32 list \<Rightarrow> u32 \<Rightarrow> error + f32" where
  "load buf i = (if unat i < length buf then Inr (buf ! unat i) else Inl OutOfBounds)"

definition store :: "f32 list \<Rightarrow> u32 \<Rightarrow> f32 \<Rightarrow> error + f32 list" where
  "store buf i v = (if unat i < length buf then Inr (buf[unat i := v]) else Inl OutOfBounds)"

text \<open>
  Lines 27 to 55 of the kernel: the new coordinates \<open>(ox, oy, oz)\<close> from the old ones.
  They start as \<open>(x, y, z)\<close> and one branch of the \<open>if\<close> chain overwrites some of them.
\<close>

definition deform :: "u32 \<Rightarrow> f32 \<Rightarrow> f32 \<times> f32 \<times> f32 \<Rightarrow> f32 \<times> f32 \<times> f32" where
  "deform op pv v =
     (case v of (x, y, z) \<Rightarrow>
        if op = 0 then (x * pv, y * pv, z * pv)
        else if op = 1 then
          (let angle = pv * 3.14159265; c = cos angle; s = sin angle
           in (x * c + z * s, y, - x * s + z * c))
        else if op = 2 then (x, y + (pv - 1.0) * 0.5, z)
        else if op = 3 then
          (let len = sqrt (x * x + y * y + z * z)
           in if len > 0.001 then
                (let nx = x / len; ny = y / len; nz = z / len;
                     r = 0.5;
                     t = clamp pv 0.0 2.0 - 1.0
                 in (x + (nx * r - x) * t, y + (ny * r - y) * t, z + (nz * r - z) * t))
              else (x, y, z))
        else (x, y, z))"

text \<open>
  The entry point \<^verbatim>\<open>main\<close> for the invocation with \<^verbatim>\<open>global_invocation_id.x = gid_x\<close>.
  The input buffer is read-only; the result is the output buffer after the invocation.
\<close>

definition main :: "Params \<Rightarrow> f32 list \<Rightarrow> f32 list \<Rightarrow> u32 \<Rightarrow> error + f32 list" where
  "main params input_verts output_verts gid_x =
     (let idx = gid_x in
      if idx \<ge> vertex_count params then Inr output_verts
      else
        (let base = idx * 3 in
         bind_result (load input_verts base) (\<lambda>x.
         bind_result (load input_verts (base + 1)) (\<lambda>y.
         bind_result (load input_verts (base + 2)) (\<lambda>z.
         (let (ox, oy, oz) = deform (operation params) (param_value params) (x, y, z) in
          bind_result (store output_verts base ox) (\<lambda>o1.
          bind_result (store o1 (base + 1) oy) (\<lambda>o2.
          store o2 (base + 2) oz))))))))"

text \<open>
  A dispatch of \<open>n\<close> workgroups of size 64 along one axis runs \<^verbatim>\<open>main\<close> once for every
  \<open>gid.x\<close> below \<open>n * 64\<close>. The invocations only share the read-only input and write
  disjoint cells, so running them in index order gives the result of the parallel run.
  The device's limit on the number of workgroups of one dispatch is not modelled.
\<close>

fun run_invocations :: "Params \<Rightarrow> f32 list \<Rightarrow> u32 list \<Rightarrow> f32 list \<Rightarrow> error + f32 list" where
  "run_invocations params inp [] out = Inr out"
| "run_invocations params inp (g # gs) out =
     (case main params inp out g of
        Inl e \<Rightarrow> Inl e
      | Inr out' \<Rightarrow> run_invocations params inp gs out')"

definition dispatchWorkgroups :: "nat \<Rightarrow> Params \<Rightarrow> f32 list \<Rightarrow> f32 list \<Rightarrow> error + f32 list" where
  "dispatchWorkgroups n params inp out =
     run_invocations params inp (map of_nat [0 ..< n * 64]) out"

text \<open>\<^verbatim>\<open>Math.ceil(vertexCount / 64)\<close> in \<^verbatim>\<open>processOperation\<close>.\<close>

definition workgroups :: "nat \<Rightarrow> nat" where
  "workgroups vertexCount = nat \<lceil>real vertexCount / 64\<rceil>"

text \<open>The vertex with index \<open>i\<close> of a packed position buffer, and the whole deformed buffer.\<close>

definition vertex_at :: "f32 list \<Rightarrow> nat \<Rightarrow> f32 \<times> f32 \<times> f32" where
  "vertex_at buf i = (buf ! (3 * i), buf ! (3 * i + 1), buf ! (3 * i + 2))"

definition triple_list :: "f32 \<times> f32 \<times> f32 \<Rightarrow> f32 list" where
  "triple_list v = (case v of (a, b, c) \<Rightarrow> [a, b, c])"

definition deformed :: "Params \<Rightarrow> f32 list \<Rightarrow> nat \<Rightarrow> f32 list" where
  "deformed params inp k =
     concat (map (\<lambda>i. triple_list (deform (operation params) (param_value params) (vertex_at inp i)))
                 [0 ..< k])"

text \<open>
  Two quantities in which the properties of the kernel are stated: the distance of a
  vertex from the origin, which is the kernel's \<^verbatim>\<open>len\<close>, and a vertex with its three
  coordinates multiplied by a factor.
\<close>

definition dist0 :: "f32 \<times> f32 \<times> f32 \<Rightarrow> f32" where
  "dist0 v = (case v of (x, y, z) \<Rightarrow> sqrt (x * x + y * y + z * z))"

definition scaled :: "f32 \<Rightarrow> f32 \<times> f32 \<times> f32 \<Rightarrow> f32 \<times> f32 \<times> f32" where
  "scaled k v = (case v of (x, y, z) \<Rightarrow> (k * x, k * y, k * z))"

section \<open>The host side: operation names and the parameter payload\<close>

text \<open>
  \<^verbatim>\<open>const OP_MAP = { scale: 0, rotate: 1, translate: 2, inflate: 3 }\<close> is a plain
  object: reading a property that is not its own goes on to \<^verbatim>\<open>Object.prototype\<close>.
  The result of \<^verbatim>\<open>OP_MAP[operation]\<close> is therefore a number, \<^verbatim>\<open>undefined\<close>, or a
  member inherited from \<^verbatim>\<open>Object.prototype\<close> (a function or an object), which is
  neither \<^verbatim>\<open>null\<close> nor \<^verbatim>\<open>undefined\<close>.
\<close>

datatype js_value = Number nat | Undefined | Inherited

definition OP_MAP :: "(string \<times> nat) list" where
  "OP_MAP = [(''scale'', 0), (''rotate'', 1), (''translate'', 2), (''inflate'', 3)]"

text \<open>The property names of \<^verbatim>\<open>Object.prototype\<close> (ECMAScript, with Annex B).\<close>

definition Object_prototype_keys :: "string list" where
  "Object_prototype_keys =
     [''constructor'', ''hasOwnProperty'', ''isPrototypeOf'', ''propertyIsEnumerable'',
      ''toLocaleString'', ''toString'', ''valueOf'', ''__proto__'',
      ''__defineGetter__'', ''__defineSetter__'', ''__lookupGetter__'', ''__lookupSetter__'']"

definition get_property :: "(string \<times> nat) list \<Rightarrow> string \<Rightarrow> js_value" where
  "get_property obj key =
     (case map_of obj key of
        Some n \<Rightarrow> Number n
      | None \<Rightarrow> if key \<in> set Object_prototype_keys then Inherited else Undefined)"

text \<open>The operator \<^verbatim>\<open>??\<close>: the right operand replaces \<^verbatim>\<open>undefined\<close> (and \<^verbatim>\<open>null\<close>) only.\<close>

definition nullish :: "js_value \<Rightarrow> js_value \<Rightarrow> js_value" where
  "nullish v d = (if v = Undefined then d else v)"

text \<open>
  \<^verbatim>\<open>ToUint32\<close>, applied by \<^verbatim>\<open>setUint32\<close> to its value: a number is taken modulo
  \<open>2 ^ 32\<close>; \<^verbatim>\<open>undefined\<close>, a function and a plain object convert to NaN and then to 0.
\<close>

definition ToUint32 :: "js_value \<Rightarrow> u32" where
  "ToUint32 v = (case v of Number n \<Rightarrow> of_nat n | Undefined \<Rightarrow> 0 | Inherited \<Rightarrow> 0)"

text \<open>The four bytes of a 32-bit value, least significant first, and its reading back.\<close>

definition le_bytes :: "u32 \<Rightarrow> byte list" where
  "le_bytes w = [ucast w, ucast (drop_bit 8 w), ucast (drop_bit 16 w), ucast (drop_bit 24 w)]"

definition word_le :: "byte list \<Rightarrow> nat \<Rightarrow> u32" where
  "word_le bs off =
     ucast (bs ! off) OR push_bit 8 (ucast (bs ! (off + 1)))
       OR push_bit 16 (ucast (bs ! (off + 2))) OR push_bit 24 (ucast (bs ! (off + 3)))"

text \<open>
  \<^verbatim>\<open>DataView.setUint32(byteOffset, value, littleEndian)\<close> on the bytes of the view, and
  \<^verbatim>\<open>setFloat32\<close>, which stores the binary32 encoding of its value. The encoding of a
  float as 32 bits is not part of this model of floats: it is the parameter \<open>enc\<close>.
\<close>

definition setUint32 :: "byte list \<Rightarrow> nat \<Rightarrow> u32 \<Rightarrow> bool \<Rightarrow> error + byte list" where
  "setUint32 view byteOffset v littleEndian =
     (if byteOffset + 4 \<le> length view
      then Inr (take byteOffset view
                @ (if littleEndian then le_bytes v else rev (le_bytes v))
                @ drop (byteOffset + 4) view)
      else Inl RangeError)"

definition setFloat32 :: "(f32 \<Rightarrow> u32) \<Rightarrow> byte list \<Rightarrow> nat \<Rightarrow> f32 \<Rightarrow> bool \<Rightarrow> error + byte list" where
  "setFloat32 enc view byteOffset x littleEndian = setUint32 view byteOffset (enc x) littleEndian"

text \<open>Lines 155 to 160 of \<^verbatim>\<open>processOperation\<close>: the contents of \<^verbatim>\<open>uniformData\<close>.\<close>

definition uniformData :: "(f32 \<Rightarrow> u32) \<Rightarrow> js_value \<Rightarrow> f32 \<Rightarrow> nat \<Rightarrow> error + byte list" where
  "uniformData enc opIndex param vertexCount =
     bind_result (setUint32 (replicate 16 0) 0 (ToUint32 opIndex) True) (\<lambda>v1.
     bind_result (setFloat32 enc v1 4 param True) (\<lambda>v2.
     bind_result (setUint32 v2 8 (of_nat vertexCount) True) (\<lambda>v3.
     setUint32 v3 12 0 True)))"

text \<open>
  The kernel's view of the uniform buffer: \<^verbatim>\<open>struct Params\<close> has its four 4-byte
  members at offsets 0, 4, 8 and 12, little-endian. \<open>dec\<close> reads 32 bits as a float.
\<close>

definition read_Params :: "(u32 \<Rightarrow> f32) \<Rightarrow> byte list \<Rightarrow> Params" where
  "read_Params dec bs =
     \<lparr>operation = word_le bs 0, param_value = dec (word_le bs 4),
      vertex_count = word_le bs 8, pad = word_le bs 12\<rparr>"

section \<open>The transform engine (class StlOperations) and the device\<close>

text \<open>
  Typed arrays live in a heap of host objects and device buffers in a table of the
  device; both are lists, an address is an index, and an allocation appends, so a new
  address is never one in use. The fields of \<^verbatim>\<open>StlOperations\<close> hold addresses, as
  the JavaScript fields hold references.
\<close>

datatype host_object = Float32Array "f32 list" | Uint32Array "u32 list" | Detached

datatype gpu_buffer = FloatData "f32 list" | ByteData "byte list" | Destroyed

record MeshData =
  vertices :: nat
  indices :: nat
  vertexCount :: nat

record StlOperations =
  heap :: "host_object list"
  gpu :: "gpu_buffer list"
  meshData :: "MeshData option"
  computePipeline :: bool
  inputBuffer :: "nat option"
  outputBuffer :: "nat option"
  uniformBuffer :: "nat option"
  bindGroup :: "(nat \<times> nat \<times> nat) option"

text \<open>The constructor: every field is \<^verbatim>\<open>null\<close>.\<close>

definition new_StlOperations :: StlOperations where
  "new_StlOperations =
     \<lparr>heap = [], gpu = [], meshData = None, computePipeline = False,
      inputBuffer = None, outputBuffer = None, uniformBuffer = None, bindGroup = None\<rparr>"

text \<open>Reading a member of a reference that may be \<^verbatim>\<open>null\<close>.\<close>

definition nonnull :: "'a option \<Rightarrow> error + 'a" where
  "nonnull r = (case r of None \<Rightarrow> Inl TypeError | Some v \<Rightarrow> Inr v)"

definition cube_positions :: "f32 list" where
  "cube_positions =
     [-0.5, -0.5, -0.5,
       0.5, -0.5, -0.5,
       0.5,  0.5, -0.5,
      -0.5,  0.5, -0.5,
      -0.5, -0.5,  0.5,
       0.5, -0.5,  0.5,
       0.5,  0.5,  0.5,
      -0.5,  0.5,  0.5]"

definition cube_indices :: "u32 list" where
  "cube_indices =
     [4, 5, 6, 4, 6, 7,
      1, 0, 3, 1, 3, 2,
      5, 1, 2, 5, 2, 6,
      0, 4, 7, 0, 7, 3,
      7, 6, 2, 7, 2, 3,
      0, 1, 5, 0, 5, 4]"

text \<open>
  \<^verbatim>\<open>generateCubeMesh\<close> allocates the two arrays and stores the mesh; the 24 positions
  make \<^verbatim>\<open>positions.length / 3\<close> the integer 8.
\<close>

definition generateCubeMesh :: "StlOperations \<Rightarrow> StlOperations" where
  "generateCubeMesh st =
     (let positions = length (heap st);
          indices' = length (heap st) + 1
      in st\<lparr>heap := heap st @ [Float32Array cube_positions, Uint32Array cube_indices],
            meshData := Some \<lparr>vertices = positions, indices = indices',
                              vertexCount = length cube_positions div 3\<rparr>\<rparr>)"

definition initComputePipeline :: "StlOperations \<Rightarrow> StlOperations" where
  "initComputePipeline st = st\<lparr>computePipeline := True\<rparr>"

text \<open>The float contents of a host array and of a device buffer.\<close>

definition float_array :: "host_object list \<Rightarrow> nat \<Rightarrow> error + f32 list" where
  "float_array h a =
     (if a < length h then (case h ! a of Float32Array xs \<Rightarrow> Inr xs | _ \<Rightarrow> Inl TypeError)
      else Inl TypeError)"

definition float_buffer :: "gpu_buffer list \<Rightarrow> nat \<Rightarrow> error + f32 list" where
  "float_buffer g b =
     (if b < length g then (case g ! b of FloatData xs \<Rightarrow> Inr xs | _ \<Rightarrow> Inl InvalidBuffer)
      else Inl InvalidBuffer)"

definition byte_buffer :: "gpu_buffer list \<Rightarrow> nat \<Rightarrow> error + byte list" where
  "byte_buffer g b =
     (if b < length g then (case g ! b of ByteData bs \<Rightarrow> Inr bs | _ \<Rightarrow> Inl InvalidBuffer)
      else Inl InvalidBuffer)"

definition destroy :: "nat option \<Rightarrow> gpu_buffer list \<Rightarrow> gpu_buffer list" where
  "destroy r g = (case r of None \<Rightarrow> g | Some b \<Rightarrow> g[b := Destroyed])"

text \<open>
  \<^verbatim>\<open>createBuffers\<close>: the old buffers are destroyed; the input buffer is created with the
  mesh positions in it, the output buffer with the same size and the uniform buffer
  with 16 bytes, both zero-filled as the device creates them.
\<close>

definition createBuffers :: "StlOperations \<Rightarrow> error + StlOperations" where
  "createBuffers st =
     bind_result (nonnull (meshData st)) (\<lambda>md.
     bind_result (float_array (heap st) (vertices md)) (\<lambda>vertexData.
       (let g = destroy (uniformBuffer st) (destroy (outputBuffer st) (destroy (inputBuffer st) (gpu st)));
            n = length g
        in Inr (st\<lparr>gpu := g @ [FloatData vertexData,
                                 FloatData (replicate (length vertexData) 0),
                                 ByteData (replicate 16 0)],
                    inputBuffer := Some n,
                    outputBuffer := Some (n + 1),
                    uniformBuffer := Some (n + 2)\<rparr>))))"

text \<open>\<^verbatim>\<open>setupBindGroup\<close> records which three buffers the kernel is bound to.\<close>

definition setupBindGroup :: "StlOperations \<Rightarrow> error + StlOperations" where
  "setupBindGroup st =
     (if \<not> computePipeline st then Inl TypeError
      else
        bind_result (nonnull (inputBuffer st)) (\<lambda>i.
        bind_result (nonnull (outputBuffer st)) (\<lambda>out.
        bind_result (nonnull (uniformBuffer st)) (\<lambda>u.
        Inr (st\<lparr>bindGroup := Some (i, out, u)\<rparr>)))))"

text \<open>\<^verbatim>\<open>device.queue.writeBuffer(this.uniformBuffer, 0, uniformData)\<close>.\<close>

definition writeBuffer :: "StlOperations \<Rightarrow> nat option \<Rightarrow> byte list \<Rightarrow> error + StlOperations" where
  "writeBuffer st buffer bytes =
     bind_result (nonnull buffer) (\<lambda>b.
     bind_result (byte_buffer (gpu st) b) (\<lambda>old.
       if length bytes \<le> length old
       then Inr (st\<lparr>gpu := (gpu st)[b := ByteData (bytes @ drop (length bytes) old)]\<rparr>)
       else Inl InvalidBuffer))"

text \<open>
  The compute pass of lines 163 to 173: the pipeline and the bind group are set, \<open>n\<close>
  workgroups are dispatched, and the work is awaited. The kernel reads its parameters
  from the bound uniform buffer and replaces the contents of the bound output buffer.
\<close>

definition compute_pass :: "(u32 \<Rightarrow> f32) \<Rightarrow> StlOperations \<Rightarrow> nat \<Rightarrow> error + StlOperations" where
  "compute_pass dec st n =
     (if \<not> computePipeline st then Inl TypeError
      else
        bind_result (nonnull (bindGroup st)) (\<lambda>(i, out, u).
        bind_result (float_buffer (gpu st) i) (\<lambda>input_verts.
        bind_result (float_buffer (gpu st) out) (\<lambda>output_verts.
        bind_result (byte_buffer (gpu st) u) (\<lambda>bytes.
        bind_result (dispatchWorkgroups n (read_Params dec bytes) input_verts output_verts) (\<lambda>result.
        Inr (st\<lparr>gpu := (gpu st)[out := FloatData result]\<rparr>)))))))"

text \<open>
  \<^verbatim>\<open>processOperation(operation, param)\<close>. Its return value, the elapsed time, is a
  wall-clock reading and is not modelled; the result is the state after the call.
\<close>

definition processOperation ::
    "(f32 \<Rightarrow> u32) \<Rightarrow> (u32 \<Rightarrow> f32) \<Rightarrow> StlOperations \<Rightarrow> string \<Rightarrow> f32 \<Rightarrow> error + StlOperations" where
  "processOperation enc dec st operation' param =
     (let opIndex = nullish (get_property OP_MAP operation') (Number 0) in
      bind_result (nonnull (meshData st)) (\<lambda>md.
        (let vertexCount' = vertexCount md in
         bind_result (uniformData enc opIndex param vertexCount') (\<lambda>bytes.
         bind_result (writeBuffer st (uniformBuffer st) bytes) (\<lambda>st1.
           (let workgroups' = workgroups vertexCount' in
            compute_pass dec st1 workgroups'))))))"

text \<open>
  \<^verbatim>\<open>GPUManager.readBuffer(srcBuffer, size)\<close>: a staging buffer receives the first
  \<open>size\<close> bytes of the source; its mapped range is a host object; \<^verbatim>\<open>slice()\<close> copies
  that into a new array; \<^verbatim>\<open>unmap()\<close> detaches the mapped range and the staging
  buffer is destroyed. The result is the state and the address of the new array.
\<close>

definition readBuffer :: "StlOperations \<Rightarrow> nat option \<Rightarrow> nat \<Rightarrow> error + (StlOperations \<times> nat)" where
  "readBuffer st srcBuffer size' =
     bind_result (nonnull srcBuffer) (\<lambda>src.
     bind_result (float_buffer (gpu st) src) (\<lambda>contents.
       if size' mod 4 = 0 \<and> size' \<le> 4 * length contents
       then
         (let stagingBuffer = length (gpu st);
              g1 = gpu st @ [FloatData (take (size' div 4) contents)];
              mapped = length (heap st);
              h1 = heap st @ [Float32Array (take (size' div 4) contents)];
              result = length h1;
              h2 = h1 @ [h1 ! mapped];
              h3 = h2[mapped := Detached];
              g2 = g1[stagingBuffer := Destroyed]
          in Inr (st\<lparr>heap := h3, gpu := g2\<rparr>, result))
       else Inl InvalidBuffer))"

text \<open>\<^verbatim>\<open>getProcessedVertices\<close>: \<^verbatim>\<open>byteLength\<close> is four bytes for each float.\<close>

definition getProcessedVertices :: "StlOperations \<Rightarrow> error + (StlOperations \<times> nat)" where
  "getProcessedVertices st =
     bind_result (nonnull (meshData st)) (\<lambda>md.
     bind_result (float_array (heap st) (vertices md)) (\<lambda>vertexData.
       (let size' = 4 * length vertexData in
        readBuffer st (outputBuffer st) size')))"

text \<open>
  A sequence of calls on the engine, as the process button makes them; the addresses
  returned by \<^verbatim>\<open>getProcessedVertices\<close> are collected in order.
\<close>

datatype call = ProcessOperation string f32 | GetProcessedVertices

fun run_calls ::
    "(f32 \<Rightarrow> u32) \<Rightarrow> (u32 \<Rightarrow> f32) \<Rightarrow> StlOperations \<Rightarrow> call list \<Rightarrow> error + (StlOperations \<times> nat list)" where
  "run_calls enc dec st [] = Inr (st, [])"
| "run_calls enc dec st (ProcessOperation name param # cs) =
     bind_result (processOperation enc dec st name param) (\<lambda>st'. run_calls enc dec st' cs)"
| "run_calls enc dec st (GetProcessedVertices # cs) =
     bind_result (getProcessedVertices st) (\<lambda>(st', r).
     bind_result (run_calls enc dec st' cs) (\<lambda>(st'', rs). Inr (st'', r # rs)))"

text \<open>The start of \<^verbatim>\<open>initApp\<close>: the engine as the first lines of the \<^verbatim>\<open>try\<close> block set it up.\<close>

definition init_engine :: "error + StlOperations" where
  "init_engine =
     bind_result (createBuffers (initComputePipeline (generateCubeMesh new_StlOperations)))
       setupBindGroup"

text \<open>
  The engine is ready for \<^verbatim>\<open>processOperation\<close> when the mesh, the pipeline and the
  bind group exist, the bind group names the current output and uniform buffers, the
  three bound buffers are different live buffers, and their sizes are those of the
  mesh: this is how \<^verbatim>\<open>initApp\<close> and the reset button leave it.
\<close>

definition ready :: "StlOperations \<Rightarrow> bool" where
  "ready st =
     (case (meshData st, bindGroup st) of
        (Some md, Some (i, out, u)) \<Rightarrow>
          computePipeline st \<and> outputBuffer st = Some out \<and> uniformBuffer st = Some u
          \<and> i \<noteq> out \<and> i \<noteq> u \<and> out \<noteq> u
          \<and> 3 * vertexCount md < 2 ^ 32
          \<and> (case float_array (heap st) (vertices md) of
                 Inr vs \<Rightarrow> length vs = 3 * vertexCount md | Inl e \<Rightarrow> False)
          \<and> (case float_buffer (gpu st) i of
                 Inr xs \<Rightarrow> length xs = 3 * vertexCount md | Inl e \<Rightarrow> False)
          \<and> (case float_buffer (gpu st) out of
                 Inr ys \<Rightarrow> length ys = 3 * vertexCount md | Inl e \<Rightarrow> False)
          \<and> (case byte_buffer (gpu st) u of
                 Inr bs \<Rightarrow> length bs = 16 | Inl e \<Rightarrow> False)
      | _ \<Rightarrow> False)"

section \<open>The viewport (class Renderer)\<close>

text \<open>
  The canvas element with the two sizes the renderer uses: the laid-out size
  (\<^verbatim>\<open>clientWidth\<close>, \<^verbatim>\<open>clientHeight\<close>), which the page sets, and the size of the drawing
  surface (\<^verbatim>\<open>width\<close>, \<^verbatim>\<open>height\<close>), which \<^verbatim>\<open>resizeCanvas\<close> sets.
\<close>

record Canvas =
  clientWidth :: nat
  clientHeight :: nat
  width :: nat
  height :: nat

text \<open>
  The fields of \<^verbatim>\<open>Renderer\<close> that \<^verbatim>\<open>resizeCanvas\<close>, \<^verbatim>\<open>buildMVP\<close> and \<^verbatim>\<open>render\<close> use.
  \<open>device\<close> tells whether \<^verbatim>\<open>this.device\<close> is set; the depth texture is known by its
  size; \<open>mvpBuffer\<close> holds the 16 floats last written to the uniform buffer;
  \<open>submitted\<close> lists the render passes handed to the queue, each with the index count
  it draws, if it draws; \<open>fpsCounter\<close> is the text of the frame counter element.
\<close>

record Renderer =
  canvas :: Canvas
  device :: bool
  rotation_x :: real
  rotation_y :: real
  zoom :: real
  vertexBuffer :: "f32 list option"
  indexBuffer :: "u32 list option"
  indexCount :: nat
  depthTexture :: "(nat \<times> nat) option"
  frameCount :: nat
  lastFpsTime :: real
  mvpBuffer :: "f32 list"
  submitted :: "nat option list"
  fpsCounter :: nat

text \<open>
  \<^verbatim>\<open>resizeCanvas\<close>, entered when the canvas is laid out at \<open>w\<close> by \<open>h\<close>: both are what
  \<^verbatim>\<open>clientWidth\<close> and \<^verbatim>\<open>clientHeight\<close> then return.
\<close>

definition resizeCanvas :: "Renderer \<Rightarrow> error + Renderer" where
  "resizeCanvas r =
     (let w = clientWidth (canvas r);
          h = clientHeight (canvas r)
      in if w = 0 \<or> h = 0 then Inr r
         else if \<not> device r then Inl TypeError
         else Inr (r\<lparr>canvas := (canvas r)\<lparr>width := w, height := h\<rparr>,
                     depthTexture := Some (w, h)\<rparr>))"

definition layout :: "nat \<Rightarrow> nat \<Rightarrow> Renderer \<Rightarrow> Renderer" where
  "layout w h r = r\<lparr>canvas := (canvas r)\<lparr>clientWidth := w, clientHeight := h\<rparr>\<rparr>"

text \<open>\<^verbatim>\<open>mat4Mul\<close>: the product of two row-major 4 by 4 matrices held as 16 floats.\<close>

definition mat4Mul :: "f32 list \<Rightarrow> f32 list \<Rightarrow> f32 list" where
  "mat4Mul a b =
     map (\<lambda>n. (let i = n div 4; j = n mod 4
                in a ! (i * 4 + 0) * b ! (0 * 4 + j) +
                   a ! (i * 4 + 1) * b ! (1 * 4 + j) +
                   a ! (i * 4 + 2) * b ! (2 * 4 + j) +
                   a ! (i * 4 + 3) * b ! (3 * 4 + j)))
         [0 ..< 16]"

text \<open>
  \<^verbatim>\<open>buildMVP\<close>. A new \<^verbatim>\<open>Float32Array(16)\<close> is sixteen zeros. The quotient
  \<^verbatim>\<open>width / height\<close> is only formed after \<^verbatim>\<open>render\<close> has passed its guard.
\<close>

definition buildMVP :: "Renderer \<Rightarrow> f32 list" where
  "buildMVP r =
     (let aspect = real (width (canvas r)) / real (height (canvas r));
          fov = pi / 4;
          f = 1 / tan (fov / 2);
          near = 0.1;
          far = 100;
          proj = (replicate 16 0)[0 := f / aspect, 5 := f, 10 := (far + near) / (near - far),
                                  11 := - 1, 14 := (2 * far * near) / (near - far)];
          view = (replicate 16 0)[0 := 1, 5 := 1, 10 := 1, 15 := 1, 14 := - zoom r];
          cx = cos (rotation_x r); sx = sin (rotation_x r);
          cy = cos (rotation_y r); sy = sin (rotation_y r);
          rotY = (replicate 16 0)[0 := cy, 2 := sy, 5 := 1, 8 := - sy, 10 := cy, 15 := 1];
          rotX = (replicate 16 0)[0 := 1, 5 := cx, 6 := - sx, 9 := sx, 10 := cx, 15 := 1];
          model = mat4Mul rotX rotY;
          viewModel = mat4Mul view model
      in mat4Mul proj viewModel)"

text \<open>
  \<^verbatim>\<open>render\<close>, called when \<^verbatim>\<open>performance.now()\<close> would return \<open>now\<close>. After the guard
  the matrix is built and written, one render pass is submitted (drawing the indexed
  mesh if both buffers exist) and the frame counter is advanced.
\<close>

definition render :: "real \<Rightarrow> Renderer \<Rightarrow> error + Renderer" where
  "render now r =
     (if depthTexture r = None \<or> width (canvas r) = 0 then Inr r
      else if \<not> device r then Inl TypeError
      else
        (let mvp = buildMVP r;
             r1 = r\<lparr>mvpBuffer := mvp\<rparr>;
             pass = (if vertexBuffer r1 \<noteq> None \<and> indexBuffer r1 \<noteq> None
                     then Some (indexCount r1) else None);
             r2 = r1\<lparr>submitted := submitted r1 @ [pass], frameCount := frameCount r1 + 1\<rparr>
         in if now - lastFpsTime r2 \<ge> 1000
            then Inr (r2\<lparr>fpsCounter := frameCount r2, frameCount := 0, lastFpsTime := now\<rparr>)
            else Inr r2))"

text \<open>
  What happens to the renderer after \<^verbatim>\<open>init\<close>: the window is resized, so the canvas is
  laid out anew and \<^verbatim>\<open>resizeCanvas\<close> runs, or the frame callback calls \<^verbatim>\<open>render\<close>.
\<close>

datatype event = Resize nat nat | Frame real

fun handle :: "Renderer \<Rightarrow> event \<Rightarrow> error + Renderer" where
  "handle r (Resize w h) = resizeCanvas (layout w h r)"
| "handle r (Frame now) = render now r"

fun run_events :: "Renderer \<Rightarrow> event list \<Rightarrow> error + Renderer" where
  "run_events r [] = Inr r"
| "run_events r (e # es) = bind_result (handle r e) (\<lambda>r'. run_events r' es)"

fun zero_area :: "event \<Rightarrow> bool" where
  "zero_area (Resize w h) = (w = 0 \<or> h = 0)"
| "zero_area (Frame now) = True"

text \<open>
  Two renderers agree on what \<^verbatim>\<open>render\<close> and \<^verbatim>\<open>buildMVP\<close> read: the size of the
  drawing surface, the depth texture, the device, the camera and the mesh buffers.
\<close>

definition same_view :: "Renderer \<Rightarrow> Renderer \<Rightarrow> bool" where
  "same_view r r' =
     (width (canvas r') = width (canvas r) \<and> height (canvas r') = height (canvas r)
      \<and> depthTexture r' = depthTexture r \<and> device r' = device r
      \<and> rotation_x r' = rotation_x r \<and> rotation_y r' = rotation_y r \<and> zoom r' = zoom r
      \<and> vertexBuffer r' = vertexBuffer r \<and> indexBuffer r' = indexBuffer r
      \<and> indexCount r' = indexCount r)"

text \<open>
  The render pass that \<^verbatim>\<open>render\<close> submits: it draws \<^verbatim>\<open>indexCount\<close> indices if both mesh
  buffers exist, and only clears otherwise.
\<close>

definition render_pass :: "Renderer \<Rightarrow> nat option" where
  "render_pass r =
     (if vertexBuffer r \<noteq> None \<and> indexBuffer r \<noteq> None then Some (indexCount r) else None)"

text \<open>The number of frame callbacks among the events.\<close>

fun frames :: "event list \<Rightarrow> nat" where
  "frames [] = 0"
| "frames (Resize w h # es) = frames es"
| "frames (Frame now # es) = Suc (frames es)"

text \<open>The renderer as the constructor leaves it, on a canvas of the given sizes.\<close>

definition new_Renderer :: "Canvas \<Rightarrow> real \<Rightarrow> Renderer" where
  "new_Renderer c now =
     \<lparr>canvas = c, device = False, rotation_x = - 0.4, rotation_y = 0.6, zoom = 2.5,
      vertexBuffer = None, indexBuffer = None, indexCount = 0, depthTexture = None,
      frameCount = 0, lastFpsTime = now, mvpBuffer = replicate 16 0, submitted = [],
      fpsCounter = 0\<rparr>"

section \<open>Properties of the kernel and of a dispatch\<close>

subsection \<open>One invocation and the whole dispatch\<close>

lemma workgroups_div: "workgroups vc = (vc + 63) div 64"
  unfolding workgroups_def by linarith

lemma length_deformed: "length (deformed p inp k) = 3 * k"
  by (induction k) (auto simp: deformed_def triple_list_def split: prod.splits)

lemma deformed_Suc:
  "deformed p inp (Suc k) =
   deformed p inp k @ triple_list (deform (operation p) (param_value p) (vertex_at inp k))"
  by (simp add: deformed_def)

lemma run_invocations_append:
  "run_invocations p inp (gs @ hs) out =
     (case run_invocations p inp gs out of
        Inl e \<Rightarrow> Inl e
      | Inr out' \<Rightarrow> run_invocations p inp hs out')"
  by (induction gs arbitrary: out) (auto split: sum.splits)

lemma unat_idx:
  assumes "3 * vc < 2 ^ 32" "k < vc"
  shows "unat (of_nat k :: u32) = k" "unat (of_nat k * 3 :: u32) = 3 * k"
    "unat (of_nat k * 3 + 1 :: u32) = 3 * k + 1" "unat (of_nat k * 3 + 2 :: u32) = 3 * k + 2"
  using assms by (simp_all add: unat_word_ariths unat_of_nat)

lemma update3:
  "n + 3 \<le> length xs \<Longrightarrow>
   xs[n := a, n + 1 := b, n + 2 := c] = take n xs @ [a, b, c] @ drop (n + 3) xs"
  apply (auto simp: list_eq_iff_nth_eq nth_append nth_list_update less_Suc_eq numeral_3_eq_3)
  apply (rule arg_cong [where f = "(!) xs"])
  apply arith
  done

lemma main_in_range:
  assumes vc: "vertex_count p = of_nat vc" "3 * vc < 2 ^ 32"
    and len: "length inp = 3 * vc" "3 * vc \<le> length out"
    and k: "k < vc"
  shows "main p inp out (of_nat k) =
         Inr (take (3 * k) out
              @ triple_list (deform (operation p) (param_value p) (vertex_at inp k))
              @ drop (3 * k + 3) out)"
proof -
  have guard: "\<not> (of_nat k :: u32) \<ge> of_nat vc"
    using vc(2) k by (simp add: word_le_nat_alt unat_of_nat)
  obtain a b c where d: "deform (operation p) (param_value p) (vertex_at inp k) = (a, b, c)"
    by (cases "deform (operation p) (param_value p) (vertex_at inp k)")
  have "main p inp out (of_nat k) = Inr (out[3 * k := a, 3 * k + 1 := b, 3 * k + 2 := c])"
    using guard vc len k d unat_idx [OF vc(2) k]
    by (simp add: main_def Let_def bind_result_def load_def store_def vertex_at_def)
  also have "out[3 * k := a, 3 * k + 1 := b, 3 * k + 2 := c] =
             take (3 * k) out @ [a, b, c] @ drop (3 * k + 3) out"
    using len k by (intro update3) simp
  finally show ?thesis by (simp add: d triple_list_def)
qed

lemma main_out_of_range:
  assumes "vertex_count p = of_nat vc" "vc < 2 ^ 32" "vc \<le> k" "k < 2 ^ 32"
  shows "main p inp out (of_nat k) = Inr out"
  using assms by (simp add: main_def word_le_nat_alt unat_of_nat)

lemma run_prefix:
  assumes vc: "vertex_count p = of_nat vc" "3 * vc < 2 ^ 32"
    and len: "length inp = 3 * vc" "3 * vc \<le> length out"
  shows "m \<le> 2 ^ 32 \<Longrightarrow>
         run_invocations p inp (map of_nat [0 ..< m]) out =
         Inr (deformed p inp (min m vc) @ drop (3 * min m vc) out)"
proof (induction m)
  case 0
  show ?case by (simp add: deformed_def)
next
  case (Suc m)
  let ?cur = "deformed p inp (min m vc) @ drop (3 * min m vc) out"
  have prev: "run_invocations p inp (map of_nat [0 ..< m]) out = Inr ?cur"
    using Suc by simp
  have step: "run_invocations p inp (map of_nat [0 ..< Suc m]) out = main p inp ?cur (of_nat m)"
    by (simp add: run_invocations_append prev split: sum.splits)
  show ?case
  proof (cases "m < vc")
    case True
    let ?T = "triple_list (deform (operation p) (param_value p) (vertex_at inp m))"
    have m: "main p inp ?cur (of_nat m) = Inr (take (3 * m) ?cur @ ?T @ drop (3 * m + 3) ?cur)"
      using len True by (intro main_in_range [OF vc len(1) _ True]) (simp add: length_deformed)
    have t: "take (3 * m) ?cur = deformed p inp m"
      using True by (simp add: length_deformed min_def)
    have d: "drop (3 * m + 3) ?cur = drop (3 * Suc m) out"
      using True by (simp add: length_deformed min_def)
    have s: "min (Suc m) vc = Suc m"
      using True by simp
    show ?thesis
      unfolding step m t d s deformed_Suc by simp
  next
    case False
    have e: "main p inp ?cur (of_nat m) = Inr ?cur"
      using main_out_of_range [of p vc m inp ?cur] vc False Suc.prems by simp
    have s: "min (Suc m) vc = min m vc"
      using False by simp
    show ?thesis
      unfolding step e s by simp
  qed
qed

lemma workgroups_cover: "vc \<le> workgroups vc * 64" "workgroups vc * 64 < vc + 64"
  by (simp_all add: workgroups_div)

lemma dispatch_deformed:
  assumes vc: "vertex_count p = of_nat vc" "3 * vc < 2 ^ 32"
    and len: "length inp = 3 * vc" "3 * vc \<le> length out"
  shows "dispatchWorkgroups (workgroups vc) p inp out =
         Inr (deformed p inp vc @ drop (3 * vc) out)"
proof -
  have "workgroups vc * 64 \<le> 2 ^ 32"
    using workgroups_cover(2) [of vc] vc(2) by simp
  then show ?thesis
    using run_prefix [OF vc len, of "workgroups vc * 64"] workgroups_cover(1) [of vc]
    by (simp add: dispatchWorkgroups_def min_def)
qed

lemma vertex_at_deformed:
  "i < k \<Longrightarrow>
   vertex_at (deformed p inp k @ rest) i = deform (operation p) (param_value p) (vertex_at inp i)"
proof (induction k arbitrary: rest)
  case 0
  then show ?case by simp
next
  case (Suc k)
  let ?T = "triple_list (deform (operation p) (param_value p) (vertex_at inp k))"
  show ?case
  proof (cases "i < k")
    case True
    then show ?thesis
      using Suc.IH [of "?T @ rest"] by (simp add: deformed_Suc)
  next
    case False
    then have "i = k" using Suc.prems by simp
    then show ?thesis
      by (cases "deform (operation p) (param_value p) (vertex_at inp k)")
        (simp add: deformed_Suc vertex_at_def [of "_ @ _"] nth_append length_deformed triple_list_def)
  qed
qed

lemma vertex_at_eqI:
  assumes "length a = 3 * n" "length b = 3 * n"
    and "\<And>i. i < n \<Longrightarrow> vertex_at a i = vertex_at b i"
  shows "a = b"
proof (rule nth_equalityI)
  show "length a = length b" using assms by simp
next
  fix j assume "j < length a"
  define i where "i = j div 3"
  define r where "r = j mod 3"
  have j: "j = 3 * i + r" and r: "r < 3"
    by (simp_all add: i_def r_def)
  have "i < n"
    using \<open>j < length a\<close> assms(1) by (simp add: i_def)
  then have v: "vertex_at a i = vertex_at b i"
    by (rule assms(3))
  from r consider "r = 0" | "r = 1" | "r = 2"
    by fastforce
  then show "a ! j = b ! j"
    using v unfolding j by cases (simp_all add: vertex_at_def)
qed

lemma dispatch_vertices:
  assumes "vertex_count p = of_nat vc" "3 * vc < 2 ^ 32"
    and "length inp = 3 * vc" "length out = 3 * vc"
  shows "\<exists>out'. dispatchWorkgroups (workgroups vc) p inp out = Inr out' \<and> length out' = 3 * vc \<and>
           (\<forall>i<vc. vertex_at out' i = deform (operation p) (param_value p) (vertex_at inp i))"
  using assms vertex_at_deformed [of _ vc p inp "[]"]
  by (simp add: dispatch_deformed length_deformed)

lemma dispatch_pointwise:
  assumes "vertex_count p = of_nat vc" "3 * vc < 2 ^ 32"
    and "length inp = 3 * vc" "length out = 3 * vc" "length tgt = 3 * vc"
    and "\<And>i. i < vc \<Longrightarrow> deform (operation p) (param_value p) (vertex_at inp i) = vertex_at tgt i"
  shows "dispatchWorkgroups (workgroups vc) p inp out = Inr tgt"
proof -
  obtain out' where run: "dispatchWorkgroups (workgroups vc) p inp out = Inr out'"
    and len: "length out' = 3 * vc"
    and v: "\<And>i. i < vc \<Longrightarrow>
              vertex_at out' i = deform (operation p) (param_value p) (vertex_at inp i)"
    using dispatch_vertices [OF assms(1-4)] by blast
  have "out' = tgt"
    using len assms(5) by (rule vertex_at_eqI) (simp add: v assms(6))
  then show ?thesis using run by simp
qed

subsection \<open>The four operations on one vertex\<close>

lemma deform_translate: "deform 2 pv (x, y, z) = (x, y + (pv - 1) * 0.5, z)"
  by (simp add: deform_def)

lemma deform_rotate:
  "deform 1 pv (x, y, z) =
     (x * cos (pv * 3.14159265) + z * sin (pv * 3.14159265), y,
      - x * sin (pv * 3.14159265) + z * cos (pv * 3.14159265))"
  by (simp add: deform_def Let_def)

lemma rotation_undone:
  fixes x z t :: real
  shows "(x * cos t + z * sin t) * cos (- t) + (- x * sin t + z * cos t) * sin (- t) = x"
    and "- (x * cos t + z * sin t) * sin (- t) + (- x * sin t + z * cos t) * cos (- t) = z"
proof -
  have cs: "cos t * cos t + sin t * sin t = 1"
    using sin_cos_squared_add2 [of t] by (simp add: power2_eq_square)
  have X: "x * (cos t * cos t) + x * (sin t * sin t) = x"
    using cs by (metis distrib_left mult.right_neutral)
  have Z: "z * (cos t * cos t) + z * (sin t * sin t) = z"
    using cs by (metis distrib_left mult.right_neutral)
  show "(x * cos t + z * sin t) * cos (- t) + (- x * sin t + z * cos t) * sin (- t) = x"
    using X by (simp add: algebra_simps)
  show "- (x * cos t + z * sin t) * sin (- t) + (- x * sin t + z * cos t) * cos (- t) = z"
    using Z by (simp add: algebra_simps)
qed

lemma rotate_inverse: "deform 1 (- a) (deform 1 a v) = v"
proof (cases v)
  case (fields x y z)
  have neg: "- a * 3.14159265 = - (a * 3.14159265)"
    by simp
  show ?thesis
    unfolding fields deform_rotate neg by (simp only: rotation_undone)
qed

lemma deform_inflate:
  "deform 3 pv (x, y, z) =
     (let len = sqrt (x * x + y * y + z * z); t = clamp pv 0 2 - 1
      in if len > 0.001
         then (x + (x / len * 0.5 - x) * t, y + (y / len * 0.5 - y) * t, z + (z / len * 0.5 - z) * t)
         else (x, y, z))"
  by (simp add: deform_def Let_def)

lemma inflate_one: "deform 3 1 v = v"
  by (cases v) (simp add: deform_inflate Let_def clamp_def)

lemma inflate_near_origin: "dist0 v \<le> 0.001 \<Longrightarrow> deform 3 pv v = v"
  by (cases v) (simp add: deform_inflate Let_def dist0_def)

lemma inflate_zero:
  "dist0 v > 0.001 \<Longrightarrow> deform 3 0 v = scaled (2 - 0.5 / dist0 v) v"
  by (cases v) (simp add: deform_inflate Let_def dist0_def clamp_def scaled_def algebra_simps)

lemma inflate_two:
  "dist0 v > 0.001 \<Longrightarrow> deform 3 2 v = scaled (0.5 / dist0 v) v"
  by (cases v) (simp add: deform_inflate Let_def dist0_def clamp_def scaled_def algebra_simps)

lemma dist0_scaled: "dist0 (scaled k v) = \<bar>k\<bar> * dist0 v"
proof (cases v)
  case (fields x y z)
  have "k * x * (k * x) + k * y * (k * y) + k * z * (k * z) = (k * k) * (x * x + y * y + z * z)"
    by (simp add: algebra_simps)
  then show ?thesis
    by (simp add: fields dist0_def scaled_def real_sqrt_mult)
qed

lemma inflate_sphere_fixed: "dist0 v = 0.5 \<Longrightarrow> deform 3 pv v = v"
  by (cases v) (simp add: deform_inflate Let_def dist0_def)

section \<open>Properties of the host side\<close>

subsection \<open>The parameter payload\<close>

lemma word_le_le_bytes: "word_le (le_bytes w) 0 = w"
proof -
  have "(ucast (ucast w :: byte) OR push_bit 8 (ucast (ucast (drop_bit 8 w) :: byte))
         OR push_bit 16 (ucast (ucast (drop_bit 16 w) :: byte))
         OR push_bit 24 (ucast (ucast (drop_bit 24 w) :: byte)) :: u32) = w"
  proof (rule bit_word_eqI)
    fix n :: nat
    assume "n < LENGTH(32)"
    then consider "n < 8" | "8 \<le> n" "n < 16" | "16 \<le> n" "n < 24" | "24 \<le> n" "n < 32"
      by fastforce
    then show "bit (ucast (ucast w :: byte) OR push_bit 8 (ucast (ucast (drop_bit 8 w) :: byte))
         OR push_bit 16 (ucast (ucast (drop_bit 16 w) :: byte))
         OR push_bit 24 (ucast (ucast (drop_bit 24 w) :: byte)) :: u32) n = bit w n"
      by cases (auto simp: bit_simps)
  qed
  then show ?thesis by (simp add: word_le_def le_bytes_def)
qed

lemma length_le_bytes: "length (le_bytes w) = 4"
  by (simp add: le_bytes_def)

lemma word_le_append: "length pre = off \<Longrightarrow> word_le (pre @ bs) off = word_le bs 0"
  by (auto simp: word_le_def nth_append eval_nat_numeral)

lemma word_le_prefix: "length bs = 4 \<Longrightarrow> word_le (bs @ rest) 0 = word_le bs 0"
  by (simp add: word_le_def nth_append)

lemma le_bytes_zero: "le_bytes 0 = [0, 0, 0, 0]"
  by (simp add: le_bytes_def)

lemma uniformData_bytes:
  "uniformData enc opIndex param vc =
     Inr (le_bytes (ToUint32 opIndex) @ le_bytes (enc param) @ le_bytes (of_nat vc) @ [0, 0, 0, 0])"
  by (simp add: uniformData_def setFloat32_def setUint32_def bind_result_def length_le_bytes le_bytes_zero)

lemma read_Params_payload:
  "read_Params dec (le_bytes a @ le_bytes b @ le_bytes c @ le_bytes d) =
     \<lparr>operation = a, param_value = dec b, vertex_count = c, pad = d\<rparr>"
proof -
  have 0: "word_le (le_bytes a @ le_bytes b @ le_bytes c @ le_bytes d) 0 = a"
    by (simp add: word_le_prefix length_le_bytes word_le_le_bytes)
  have 4: "word_le (le_bytes a @ le_bytes b @ le_bytes c @ le_bytes d) 4 = b"
    by (simp add: word_le_append length_le_bytes word_le_prefix word_le_le_bytes)
  have 8: "word_le (le_bytes a @ le_bytes b @ le_bytes c @ le_bytes d) 8 = c"
    using word_le_append [of "le_bytes a @ le_bytes b" 8 "le_bytes c @ le_bytes d"]
    by (simp add: length_le_bytes word_le_prefix word_le_le_bytes)
  have 12: "word_le (le_bytes a @ le_bytes b @ le_bytes c @ le_bytes d) 12 = d"
    using word_le_append [of "le_bytes a @ le_bytes b @ le_bytes c" 12 "le_bytes d"]
    by (simp add: length_le_bytes word_le_le_bytes)
  show ?thesis
    unfolding read_Params_def 0 4 8 12 ..
qed

lemma le_bytes_value:
  "unat w = unat (le_bytes w ! 0) + 256 * unat (le_bytes w ! 1)
            + 65536 * unat (le_bytes w ! 2) + 16777216 * unat (le_bytes w ! 3)"
proof -
  define x where "x = unat w"
  define a where "a = x div 256"
  define b where "b = a div 256"
  define c where "c = b div 256"
  have "x < 4294967296"
    using unsigned_less [of w, where ?'a = nat] by (simp add: x_def)
  then have "c < 256"
    by (simp add: a_def b_def c_def div_mult2_eq [symmetric])
  then have c: "c mod 256 = c" by simp
  have x: "x = x mod 256 + 256 * a" by (simp add: a_def)
  have a: "a = a mod 256 + 256 * b" by (simp add: b_def)
  have b: "b = b mod 256 + 256 * c" by (simp add: c_def)
  have "x = x mod 256 + 256 * (a mod 256) + 65536 * (b mod 256) + 16777216 * (c mod 256)"
    unfolding c using x a b by linarith
  moreover have "x div 65536 = b" "x div 16777216 = c"
    by (simp_all add: a_def b_def c_def div_mult2_eq [symmetric])
  moreover have "unat (ucast (drop_bit k w) :: byte) = drop_bit k x mod 256" for k
    by (simp add: unsigned_ucast_eq unat_drop_bit_eq take_bit_eq_mod x_def)
  from this [of 0] this [of 8] this [of 16] this [of 24]
  have "unat (le_bytes w ! 0) = x mod 256" "unat (le_bytes w ! 1) = x div 256 mod 256"
    "unat (le_bytes w ! 2) = x div 65536 mod 256" "unat (le_bytes w ! 3) = x div 16777216 mod 256"
    by (simp_all add: le_bytes_def drop_bit_eq_div)
  ultimately show ?thesis
    by (simp add: x_def [symmetric] a_def [symmetric] c)
qed

subsection \<open>The engine: operation names, readiness and the heap\<close>

lemma init_engine_ready: "case init_engine of Inr st \<Rightarrow> ready st | Inl e \<Rightarrow> False"
  by (simp add: init_engine_def createBuffers_def setupBindGroup_def initComputePipeline_def
      generateCubeMesh_def new_StlOperations_def bind_result_def nonnull_def float_array_def
      destroy_def ready_def float_buffer_def byte_buffer_def cube_positions_def Let_def)

lemma unknown_name_is_scale:
  assumes "name \<notin> {''scale'', ''rotate'', ''translate'', ''inflate''}"
  shows "ToUint32 (nullish (get_property OP_MAP name) (Number 0)) = 0"
  using assms by (simp add: get_property_def OP_MAP_def nullish_def ToUint32_def)

lemma scale_name: "ToUint32 (nullish (get_property OP_MAP ''scale'') (Number 0)) = 0"
  by (simp add: get_property_def OP_MAP_def nullish_def ToUint32_def)

lemma processOperation_opcode:
  assumes "ToUint32 (nullish (get_property OP_MAP a) (Number 0))
           = ToUint32 (nullish (get_property OP_MAP b) (Number 0))"
  shows "processOperation enc dec st a param = processOperation enc dec st b param"
  using assms by (simp add: processOperation_def Let_def uniformData_bytes)

lemma float_buffer_Inr: "float_buffer g b = Inr xs \<longleftrightarrow> b < length g \<and> g ! b = FloatData xs"
  by (auto simp: float_buffer_def split: gpu_buffer.splits)

lemma byte_buffer_Inr: "byte_buffer g b = Inr bs \<longleftrightarrow> b < length g \<and> g ! b = ByteData bs"
  by (auto simp: byte_buffer_def split: gpu_buffer.splits)

lemma float_array_Inr: "float_array h a = Inr xs \<longleftrightarrow> a < length h \<and> h ! a = Float32Array xs"
  by (auto simp: float_array_def split: host_object.splits)

lemma readyE:
  assumes "ready st"
  obtains md i out u vs xs ys bs where
    "meshData st = Some md" "bindGroup st = Some (i, out, u)" "computePipeline st"
    "outputBuffer st = Some out" "uniformBuffer st = Some u"
    "i \<noteq> out" "i \<noteq> u" "out \<noteq> u" "3 * vertexCount md < 2 ^ 32"
    "vertices md < length (heap st)" "heap st ! vertices md = Float32Array vs"
    "length vs = 3 * vertexCount md"
    "i < length (gpu st)" "gpu st ! i = FloatData xs" "length xs = 3 * vertexCount md"
    "out < length (gpu st)" "gpu st ! out = FloatData ys" "length ys = 3 * vertexCount md"
    "u < length (gpu st)" "gpu st ! u = ByteData bs" "length bs = 16"
  using assms unfolding ready_def
  by (auto split: option.splits prod.splits sum.splits
      simp: float_buffer_Inr byte_buffer_Inr float_array_Inr)

lemma readyI:
  assumes "meshData st = Some md" "bindGroup st = Some (i, out, u)" "computePipeline st"
    "outputBuffer st = Some out" "uniformBuffer st = Some u"
    "i \<noteq> out" "i \<noteq> u" "out \<noteq> u" "3 * vertexCount md < 2 ^ 32"
    "vertices md < length (heap st)" "heap st ! vertices md = Float32Array vs"
    "length vs = 3 * vertexCount md"
    "i < length (gpu st)" "gpu st ! i = FloatData xs" "length xs = 3 * vertexCount md"
    "out < length (gpu st)" "gpu st ! out = FloatData ys" "length ys = 3 * vertexCount md"
    "u < length (gpu st)" "gpu st ! u = ByteData bs" "length bs = 16"
  shows "ready st"
  using assms unfolding ready_def
  by (simp add: float_buffer_def byte_buffer_def float_array_def)

lemma processOperation_result:
  assumes "ready st"
  shows "\<exists>st' md i out u xs.
           processOperation enc dec st name param = Inr st' \<and> ready st'
           \<and> heap st' = heap st \<and> meshData st' = meshData st
           \<and> meshData st = Some md \<and> bindGroup st = Some (i, out, u)
           \<and> outputBuffer st' = Some out \<and> uniformBuffer st = Some u
           \<and> gpu st ! i = FloatData xs \<and> length xs = 3 * vertexCount md
           \<and> 3 * vertexCount md < 2 ^ 32
           \<and> gpu st' ! u =
               ByteData (le_bytes (ToUint32 (nullish (get_property OP_MAP name) (Number 0)))
                         @ le_bytes (enc param) @ le_bytes (of_nat (vertexCount md)) @ le_bytes 0)
           \<and> gpu st' ! out =
               FloatData (deformed
                 \<lparr>operation = ToUint32 (nullish (get_property OP_MAP name) (Number 0)),
                  param_value = dec (enc param),
                  vertex_count = of_nat (vertexCount md), pad = 0\<rparr> xs (vertexCount md))"
proof -
  from assms obtain md i out u vs xs ys bs where r:
    "meshData st = Some md" "bindGroup st = Some (i, out, u)" "computePipeline st"
    "outputBuffer st = Some out" "uniformBuffer st = Some u"
    "i \<noteq> out" "i \<noteq> u" "out \<noteq> u" "3 * vertexCount md < 2 ^ 32"
    "vertices md < length (heap st)" "heap st ! vertices md = Float32Array vs"
    "length vs = 3 * vertexCount md"
    "i < length (gpu st)" "gpu st ! i = FloatData xs" "length xs = 3 * vertexCount md"
    "out < length (gpu st)" "gpu st ! out = FloatData ys" "length ys = 3 * vertexCount md"
    "u < length (gpu st)" "gpu st ! u = ByteData bs" "length bs = 16"
    by (rule readyE)
  define opIndex where "opIndex = nullish (get_property OP_MAP name) (Number 0)"
  define bytes where
    "bytes = le_bytes (ToUint32 opIndex) @ le_bytes (enc param)
             @ le_bytes (of_nat (vertexCount md)) @ le_bytes 0"
  define params where
    "params = \<lparr>operation = ToUint32 opIndex, param_value = dec (enc param),
               vertex_count = of_nat (vertexCount md), pad = 0\<rparr>"
  define result where "result = deformed params xs (vertexCount md) @ drop (3 * vertexCount md) ys"
  define st1 where "st1 = st\<lparr>gpu := (gpu st)[u := ByteData bytes]\<rparr>"
  define st2 where "st2 = st1\<lparr>gpu := (gpu st1)[out := FloatData result]\<rparr>"
  have len: "length bytes = 16"
    by (simp add: bytes_def length_le_bytes)
  have ud: "uniformData enc opIndex param (vertexCount md) = Inr bytes"
    by (simp add: uniformData_bytes bytes_def le_bytes_zero)
  have wb: "writeBuffer st (uniformBuffer st) bytes = Inr st1"
    using r len by (simp add: writeBuffer_def bind_result_def nonnull_def byte_buffer_def st1_def)
  have rp: "read_Params dec bytes = params"
    by (simp add: bytes_def params_def read_Params_payload)
  have dp: "dispatchWorkgroups (workgroups (vertexCount md)) params xs ys = Inr result"
    unfolding result_def using r by (intro dispatch_deformed) (simp_all add: params_def)
  have cp: "compute_pass dec st1 (workgroups (vertexCount md)) = Inr st2"
    using r len rp dp
    by (simp add: compute_pass_def bind_result_def nonnull_def float_buffer_def byte_buffer_def
        st1_def st2_def)
  have run: "processOperation enc dec st name param = Inr st2"
    using r ud wb cp
    by (simp add: processOperation_def Let_def bind_result_def nonnull_def opIndex_def [symmetric])
  have "length result = 3 * vertexCount md"
    using r by (simp add: result_def length_deformed)
  then have "ready st2"
    using r len
    by (intro readyI [where md = md and i = i and out = out and u = u and vs = vs and xs = xs
          and ys = result and bs = bytes])
      (simp_all add: st1_def st2_def)
  moreover have "heap st2 = heap st" "meshData st2 = meshData st" "outputBuffer st2 = Some out"
    using r by (simp_all add: st1_def st2_def)
  moreover have "gpu st2 ! out = FloatData (deformed params xs (vertexCount md))"
    using r by (simp add: st1_def st2_def result_def)
  moreover have "gpu st2 ! u = ByteData bytes"
    using r by (simp add: st1_def st2_def)
  ultimately show ?thesis
    using run r(1,2,5,9,14,15) unfolding params_def bytes_def opIndex_def by blast
qed

lemma processOperation_ready:
  assumes "ready st"
  shows "\<exists>st'. processOperation enc dec st name param = Inr st' \<and> ready st'
               \<and> heap st' = heap st \<and> meshData st' = meshData st"
  using processOperation_result [OF assms, of enc dec name param] by blast

lemma getProcessedVertices_result:
  assumes "ready st"
  shows "\<exists>st' out data. getProcessedVertices st = Inr (st', Suc (length (heap st))) \<and> ready st'
               \<and> heap st' = heap st @ [Detached, Float32Array data] \<and> meshData st' = meshData st
               \<and> outputBuffer st = Some out \<and> gpu st ! out = FloatData data"
proof -
  from assms obtain md i out u vs xs ys bs where r:
    "meshData st = Some md" "bindGroup st = Some (i, out, u)" "computePipeline st"
    "outputBuffer st = Some out" "uniformBuffer st = Some u"
    "i \<noteq> out" "i \<noteq> u" "out \<noteq> u" "3 * vertexCount md < 2 ^ 32"
    "vertices md < length (heap st)" "heap st ! vertices md = Float32Array vs"
    "length vs = 3 * vertexCount md"
    "i < length (gpu st)" "gpu st ! i = FloatData xs" "length xs = 3 * vertexCount md"
    "out < length (gpu st)" "gpu st ! out = FloatData ys" "length ys = 3 * vertexCount md"
    "u < length (gpu st)" "gpu st ! u = ByteData bs" "length bs = 16"
    by (rule readyE)
  define st' where
    "st' = st\<lparr>heap := heap st @ [Detached, Float32Array ys], gpu := gpu st @ [Destroyed]\<rparr>"
  have run: "getProcessedVertices st = Inr (st', Suc (length (heap st)))"
    using r
    by (simp add: getProcessedVertices_def readBuffer_def bind_result_def nonnull_def
        float_array_def float_buffer_def Let_def st'_def nth_append list_update_append)
  have "ready st'"
    using r
    by (intro readyI [where md = md and i = i and out = out and u = u and vs = vs and xs = xs
          and ys = ys and bs = bs])
      (simp_all add: st'_def nth_append)
  moreover have "heap st' = heap st @ [Detached, Float32Array ys]" "meshData st' = meshData st"
    by (simp_all add: st'_def)
  ultimately show ?thesis
    using run r(4,17) by blast
qed

lemma getProcessedVertices_ready:
  assumes "ready st"
  shows "\<exists>st' data. getProcessedVertices st = Inr (st', Suc (length (heap st))) \<and> ready st'
               \<and> heap st' = heap st @ [Detached, Float32Array data] \<and> meshData st' = meshData st"
  using getProcessedVertices_result [OF assms] by blast

lemma init_engine_value:
  "init_engine =
     Inr \<lparr>heap = [Float32Array cube_positions, Uint32Array cube_indices],
          gpu = [FloatData cube_positions, FloatData (replicate 24 0),
                 ByteData (replicate 16 0)],
          meshData = Some \<lparr>vertices = 0, indices = 1, vertexCount = 8\<rparr>,
          computePipeline = True, inputBuffer = Some 0, outputBuffer = Some 1,
          uniformBuffer = Some 2, bindGroup = Some (0, 1, 2)\<rparr>"
proof -
  have "length cube_positions = 24"
    by (simp add: cube_positions_def)
  then show ?thesis
    by (simp add: init_engine_def createBuffers_def setupBindGroup_def initComputePipeline_def
        generateCubeMesh_def new_StlOperations_def bind_result_def nonnull_def float_array_def
        destroy_def Let_def)
qed

lemma ready_vertices:
  assumes "ready st" "meshData st = Some md"
  shows "vertices md < length (heap st)"
  using assms(1) by (rule readyE) (use assms(2) in simp)

lemma run_calls_ready:
  "ready st \<Longrightarrow>
   \<exists>st' rs ext. run_calls enc dec st calls = Inr (st', rs) \<and> ready st'
      \<and> meshData st' = meshData st \<and> heap st' = heap st @ ext
      \<and> (\<forall>r\<in>set rs. length (heap st) \<le> r \<and> r < length (heap st')
                        \<and> (\<exists>data. heap st' ! r = Float32Array data))
      \<and> distinct rs"
proof (induction calls arbitrary: st)
  case Nil
  then show ?case by simp
next
  case (Cons c calls)
  show ?case
  proof (cases c)
    case (ProcessOperation name param)
    obtain st1 where p: "processOperation enc dec st name param = Inr st1" "ready st1"
      "heap st1 = heap st" "meshData st1 = meshData st"
      using processOperation_ready [OF Cons.prems] by blast
    from Cons.IH [OF p(2)] p show ?thesis
      by (auto simp: ProcessOperation bind_result_def)
  next
    case GetProcessedVertices
    obtain st1 data where g: "getProcessedVertices st = Inr (st1, Suc (length (heap st)))"
      "ready st1" "heap st1 = heap st @ [Detached, Float32Array data]" "meshData st1 = meshData st"
      using getProcessedVertices_ready [OF Cons.prems] by blast
    obtain st' rs ext where ih: "run_calls enc dec st1 calls = Inr (st', rs)" "ready st'"
      "meshData st' = meshData st1" "heap st' = heap st1 @ ext"
      "\<forall>r\<in>set rs. length (heap st1) \<le> r \<and> r < length (heap st')
                        \<and> (\<exists>data. heap st' ! r = Float32Array data)"
      "distinct rs"
      using Cons.IH [OF g(2)] by blast
    let ?r = "Suc (length (heap st))"
    have run: "run_calls enc dec st (c # calls) = Inr (st', ?r # rs)"
      by (simp add: GetProcessedVertices g(1) ih(1) bind_result_def)
    have heap: "heap st' = heap st @ ([Detached, Float32Array data] @ ext)"
      by (simp add: ih(4) g(3))
    have new: "?r < length (heap st')" "heap st' ! ?r = Float32Array data"
      by (simp_all add: heap nth_append)
    have "?r \<notin> set rs"
      using ih(5) g(3) by auto
    moreover have "\<forall>r\<in>set rs. length (heap st) \<le> r"
      using ih(5) g(3) by auto
    ultimately show ?thesis
      using run ih(2,3,5,6) g(4) heap new
      by (intro exI [of _ st'] exI [of _ "?r # rs"] exI [of _ "[Detached, Float32Array data] @ ext"])
        auto
  qed
qed

lemma process_then_fetch:
  assumes "init_engine = Inr st"
  shows "\<exists>st1 st2 r. processOperation enc dec st name param = Inr st1
           \<and> getProcessedVertices st1 = Inr (st2, r)
           \<and> heap st2 ! r =
               Float32Array (deformed
                 \<lparr>operation = ToUint32 (nullish (get_property OP_MAP name) (Number 0)),
                  param_value = dec (enc param), vertex_count = 8, pad = 0\<rparr> cube_positions 8)
           \<and> heap st2 ! 0 = Float32Array cube_positions"
proof -
  have st: "st = \<lparr>heap = [Float32Array cube_positions, Uint32Array cube_indices],
          gpu = [FloatData cube_positions, FloatData (replicate 24 0),
                 ByteData (replicate 16 0)],
          meshData = Some \<lparr>vertices = 0, indices = 1, vertexCount = 8\<rparr>,
          computePipeline = True, inputBuffer = Some 0, outputBuffer = Some 1,
          uniformBuffer = Some 2, bindGroup = Some (0, 1, 2)\<rparr>"
    using assms unfolding init_engine_value by simp
  have r: "ready st"
    using init_engine_ready unfolding assms by simp
  obtain st1 md i out u xs where p:
    "processOperation enc dec st name param = Inr st1" "ready st1" "heap st1 = heap st"
    "meshData st = Some md" "bindGroup st = Some (i, out, u)"
    "outputBuffer st1 = Some out" "gpu st ! i = FloatData xs"
    "gpu st1 ! out =
       FloatData (deformed
         \<lparr>operation = ToUint32 (nullish (get_property OP_MAP name) (Number 0)),
          param_value = dec (enc param),
          vertex_count = of_nat (vertexCount md), pad = 0\<rparr> xs (vertexCount md))"
    using processOperation_result [OF r, of enc dec name param] by blast
  have k: "vertexCount md = 8" "xs = cube_positions"
    using p(4,5,7) by (auto simp: st)
  obtain st2 out' data where g:
    "getProcessedVertices st1 = Inr (st2, Suc (length (heap st1)))"
    "heap st2 = heap st1 @ [Detached, Float32Array data]"
    "outputBuffer st1 = Some out'" "gpu st1 ! out' = FloatData data"
    using getProcessedVertices_result [OF p(2)] by blast
  have "out' = out"
    using g(3) p(6) by simp
  then have "heap st2 ! Suc (length (heap st1)) =
               Float32Array (deformed
                 \<lparr>operation = ToUint32 (nullish (get_property OP_MAP name) (Number 0)),
                  param_value = dec (enc param), vertex_count = 8, pad = 0\<rparr> cube_positions 8)"
    using g(2,4) p(8) k by (simp add: nth_append)
  moreover have "heap st2 ! 0 = Float32Array cube_positions"
    by (simp add: g(2) p(3) st)
  ultimately show ?thesis
    using p(1) g(1) by blast
qed

text \<open>
  Claim C8. On a ready engine every sequence of \<^verbatim>\<open>processOperation\<close> and
  \<^verbatim>\<open>getProcessedVertices\<close> calls ends without an error and leaves the mesh as it was: the
  same two addresses and vertex count, and every host object that existed before the
  calls, the position and index arrays among them, with its contents unchanged. Each
  address returned by \<^verbatim>\<open>getProcessedVertices\<close> is a new one, different from those of
  the mesh arrays and from the other returned ones, and holds a float array of its own,
  not the detached mapped range.
\<close>

theorem mesh_never_mutated_in_place:
  assumes "ready st" "meshData st = Some md" "indices md < length (heap st)"
  shows "\<exists>st' rs. run_calls enc dec st calls = Inr (st', rs)
       \<and> meshData st' = Some md
       \<and> take (length (heap st)) (heap st') = heap st
       \<and> heap st' ! vertices md = heap st ! vertices md
       \<and> heap st' ! indices md = heap st ! indices md
       \<and> (\<forall>r\<in>set rs. r \<noteq> vertices md \<and> r \<noteq> indices md
                        \<and> length (heap st) \<le> r \<and> r < length (heap st')
                        \<and> (\<exists>data. heap st' ! r = Float32Array data))
       \<and> distinct rs"
proof -
  obtain st' rs ext where run: "run_calls enc dec st calls = Inr (st', rs)"
    and m: "meshData st' = meshData st" and h: "heap st' = heap st @ ext"
    and new: "\<forall>r\<in>set rs. length (heap st) \<le> r \<and> r < length (heap st')
                        \<and> (\<exists>data. heap st' ! r = Float32Array data)"
    and d: "distinct rs"
    using run_calls_ready [OF assms(1), of enc dec calls] by blast
  have v: "vertices md < length (heap st)"
    using assms(1,2) by (rule ready_vertices)
  have "heap st' ! vertices md = heap st ! vertices md" "heap st' ! indices md = heap st ! indices md"
    using v assms(3) by (simp_all add: h nth_append)
  moreover have "\<forall>r\<in>set rs. r \<noteq> vertices md \<and> r \<noteq> indices md"
    using new v assms(3) by auto
  ultimately show ?thesis
    using run m assms(2) h new d by (intro exI [of _ st'] exI [of _ rs]) auto
qed

theorem mesh_never_mutated_in_place_witness:
  "case init_engine of
     Inl e \<Rightarrow> False
   | Inr st \<Rightarrow>
       ready st
       \<and> meshData st = Some \<lparr>vertices = 0, indices = 1, vertexCount = 8\<rparr>
       \<and> indices \<lparr>vertices = 0, indices = 1, vertexCount = 8\<rparr> < length (heap st)
       \<and> (\<exists>st' rs. run_calls (\<lambda>x. 0) (\<lambda>w. 0) st
                      [ProcessOperation ''scale'' 2, GetProcessedVertices,
                       ProcessOperation ''inflate'' 0, GetProcessedVertices] = Inr (st', rs)
             \<and> meshData st' = Some \<lparr>vertices = 0, indices = 1, vertexCount = 8\<rparr>
             \<and> heap st' ! 0 = Float32Array cube_positions
             \<and> heap st' ! 1 = Uint32Array cube_indices
             \<and> (\<forall>r\<in>set rs. r \<noteq> 0 \<and> r \<noteq> 1 \<and> (\<exists>data. heap st' ! r = Float32Array data))
             \<and> distinct rs)"
proof -
  have "\<exists>st. init_engine = Inr st \<and> ready st"
    using init_engine_ready by (auto split: sum.splits)
  then obtain st where i: "init_engine = Inr st" and r: "ready st"
    by blast
  have s: "meshData st = Some \<lparr>vertices = 0, indices = 1, vertexCount = 8\<rparr>"
    "heap st = [Float32Array cube_positions, Uint32Array cube_indices]"
    using i unfolding init_engine_value by auto
  have l: "indices \<lparr>vertices = 0, indices = 1, vertexCount = 8\<rparr> < length (heap st)"
    by (simp add: s)
  let ?calls = "[ProcessOperation ''scale'' 2, GetProcessedVertices,
                 ProcessOperation ''inflate'' 0, GetProcessedVertices]"
  obtain st' rs where run: "run_calls (\<lambda>x. 0) (\<lambda>w. 0) st ?calls = Inr (st', rs)"
    and m: "meshData st' = Some \<lparr>vertices = 0, indices = 1, vertexCount = 8\<rparr>"
    and h: "heap st' ! vertices \<lparr>vertices = 0, indices = 1, vertexCount = 8\<rparr>
              = heap st ! vertices \<lparr>vertices = 0, indices = 1, vertexCount = 8\<rparr>"
           "heap st' ! indices \<lparr>vertices = 0, indices = 1, vertexCount = 8\<rparr>
              = heap st ! indices \<lparr>vertices = 0, indices = 1, vertexCount = 8\<rparr>"
    and new: "\<forall>r\<in>set rs. r \<noteq> vertices \<lparr>vertices = 0, indices = 1, vertexCount = 8\<rparr>
                \<and> r \<noteq> indices \<lparr>vertices = 0, indices = 1, vertexCount = 8\<rparr>
                \<and> length (heap st) \<le> r \<and> r < length (heap st')
                \<and> (\<exists>data. heap st' ! r = Float32Array data)"
    and d: "distinct rs"
    using mesh_never_mutated_in_place [OF r s(1) l, of "\<lambda>x. 0" "\<lambda>w. 0" ?calls] by blast
  have h0: "heap st' ! 0 = Float32Array cube_positions" and h1: "heap st' ! 1 = Uint32Array cube_indices"
    using h by (simp_all add: s(2))
  have new': "\<forall>r\<in>set rs. r \<noteq> 0 \<and> r \<noteq> 1 \<and> (\<exists>data. heap st' ! r = Float32Array data)"
    using new by simp
  show ?thesis
    unfolding i sum.case
    by (intro conjI r s(1) l exI [of _ st'] exI [of _ rs] run m h0 h1 new' d)
qed

subsection \<open>The payload that reaches the uniform buffer\<close>

text \<open>
  Claim C6. For every operation name and every \<open>param\<close>, the payload that
  \<^verbatim>\<open>processOperation\<close> builds is 16 bytes: the operation code, the 32 bits of \<open>param\<close>,
  the vertex count and a zero word, each as four bytes with the least significant byte
  first. The kernel's \<^verbatim>\<open>Params\<close> struct, read at offsets 0, 4, 8 and 12, gets these four
  values back. On a ready engine these 16 bytes are the contents of the uniform buffer
  after the call.
\<close>

theorem uniform_payload_layout:
  "uniformData enc (nullish (get_property OP_MAP name) (Number 0)) param vc
     = Inr (le_bytes (ToUint32 (nullish (get_property OP_MAP name) (Number 0)))
            @ le_bytes (enc param) @ le_bytes (of_nat vc) @ le_bytes 0)
   \<and> length (le_bytes (ToUint32 (nullish (get_property OP_MAP name) (Number 0)))
            @ le_bytes (enc param) @ le_bytes (of_nat vc) @ le_bytes 0) = 16
   \<and> read_Params dec
        (le_bytes (ToUint32 (nullish (get_property OP_MAP name) (Number 0)))
         @ le_bytes (enc param) @ le_bytes (of_nat vc) @ le_bytes 0)
       = \<lparr>operation = ToUint32 (nullish (get_property OP_MAP name) (Number 0)),
          param_value = dec (enc param), vertex_count = of_nat vc, pad = 0\<rparr>
   \<and> unat w = unat (le_bytes w ! 0) + 256 * unat (le_bytes w ! 1)
              + 65536 * unat (le_bytes w ! 2) + 16777216 * unat (le_bytes w ! 3)
   \<and> (ready st \<longrightarrow>
        (\<exists>st' md u. processOperation enc dec st name param = Inr st'
           \<and> meshData st = Some md \<and> uniformBuffer st = Some u
           \<and> gpu st' ! u =
               ByteData (le_bytes (ToUint32 (nullish (get_property OP_MAP name) (Number 0)))
                         @ le_bytes (enc param) @ le_bytes (of_nat (vertexCount md))
                         @ le_bytes 0)))"
proof (intro conjI impI)
  show "uniformData enc (nullish (get_property OP_MAP name) (Number 0)) param vc
     = Inr (le_bytes (ToUint32 (nullish (get_property OP_MAP name) (Number 0)))
            @ le_bytes (enc param) @ le_bytes (of_nat vc) @ le_bytes 0)"
    by (simp add: uniformData_bytes le_bytes_zero)
  show "length (le_bytes (ToUint32 (nullish (get_property OP_MAP name) (Number 0)))
            @ le_bytes (enc param) @ le_bytes (of_nat vc) @ le_bytes 0) = 16"
    by (simp add: length_le_bytes)
  show "read_Params dec
        (le_bytes (ToUint32 (nullish (get_property OP_MAP name) (Number 0)))
         @ le_bytes (enc param) @ le_bytes (of_nat vc) @ le_bytes 0)
       = \<lparr>operation = ToUint32 (nullish (get_property OP_MAP name) (Number 0)),
          param_value = dec (enc param), vertex_count = of_nat vc, pad = 0\<rparr>"
    by (rule read_Params_payload)
  show "unat w = unat (le_bytes w ! 0) + 256 * unat (le_bytes w ! 1)
              + 65536 * unat (le_bytes w ! 2) + 16777216 * unat (le_bytes w ! 3)"
    by (rule le_bytes_value)
next
  assume "ready st"
  then show "\<exists>st' md u. processOperation enc dec st name param = Inr st'
           \<and> meshData st = Some md \<and> uniformBuffer st = Some u
           \<and> gpu st' ! u =
               ByteData (le_bytes (ToUint32 (nullish (get_property OP_MAP name) (Number 0)))
                         @ le_bytes (enc param) @ le_bytes (of_nat (vertexCount md))
                         @ le_bytes 0)"
    using processOperation_result [of st enc dec name param] by blast
qed

theorem uniform_payload_layout_witness:
  "uniformData (\<lambda>x. 0x40000000) (nullish (get_property OP_MAP ''rotate'') (Number 0)) 2 8
     = Inr [1, 0, 0, 0,   0, 0, 0, 0x40,   8, 0, 0, 0,   0, 0, 0, 0]
   \<and> (case init_engine of
         Inl e \<Rightarrow> False
       | Inr st \<Rightarrow>
           ready st
           \<and> (\<exists>st'. processOperation (\<lambda>x. 0x40000000) (\<lambda>w. 0) st ''rotate'' 2 = Inr st'
                \<and> gpu st' ! 2 = ByteData [1, 0, 0, 0,   0, 0, 0, 0x40,   8, 0, 0, 0,   0, 0, 0, 0]))"
proof -
  obtain st where i: "init_engine = Inr st"
    using init_engine_value by blast
  have r: "ready st"
    using init_engine_ready unfolding i by simp
  have s: "meshData st = Some \<lparr>vertices = 0, indices = 1, vertexCount = 8\<rparr>" "uniformBuffer st = Some 2"
    using i unfolding init_engine_value by auto
  note T = uniform_payload_layout [of "\<lambda>x. 0x40000000" "''rotate''" 2 8 "\<lambda>w. 0" 0 st]
  have b: "le_bytes (ToUint32 (nullish (get_property OP_MAP ''rotate'') (Number 0)))
           @ le_bytes 0x40000000 @ le_bytes (of_nat 8) @ le_bytes 0
           = [1, 0, 0, 0,   0, 0, 0, 0x40,   8, 0, 0, 0,   0, 0, 0, 0]"
    by (simp add: le_bytes_def get_property_def OP_MAP_def nullish_def ToUint32_def)
  from T have a: "uniformData (\<lambda>x. 0x40000000) (nullish (get_property OP_MAP ''rotate'') (Number 0)) 2 8
     = Inr [1, 0, 0, 0,   0, 0, 0, 0x40,   8, 0, 0, 0,   0, 0, 0, 0]"
    unfolding b by blast
  from T r obtain st' md u where
    "processOperation (\<lambda>x. 0x40000000) (\<lambda>w. 0) st ''rotate'' 2 = Inr st'"
    "meshData st = Some md" "uniformBuffer st = Some u"
    "gpu st' ! u =
       ByteData (le_bytes (ToUint32 (nullish (get_property OP_MAP ''rotate'') (Number 0)))
                 @ le_bytes 0x40000000 @ le_bytes (of_nat (vertexCount md)) @ le_bytes 0)"
    by blast
  then have "\<exists>st'. processOperation (\<lambda>x. 0x40000000) (\<lambda>w. 0) st ''rotate'' 2 = Inr st'
                \<and> gpu st' ! 2 = ByteData [1, 0, 0, 0,   0, 0, 0, 0x40,   8, 0, 0, 0,   0, 0, 0, 0]"
    using s b by auto
  with r have c: "case init_engine of
         Inl e \<Rightarrow> False
       | Inr st \<Rightarrow>
           ready st
           \<and> (\<exists>st'. processOperation (\<lambda>x. 0x40000000) (\<lambda>w. 0) st ''rotate'' 2 = Inr st'
                \<and> gpu st' ! 2 = ByteData [1, 0, 0, 0,   0, 0, 0, 0x40,   8, 0, 0, 0,   0, 0, 0, 0])"
    unfolding i sum.case by blast
  show ?thesis
    by (intro conjI a c)
qed

section \<open>The four operations, from the dispatch to the fetched result\<close>

subsection \<open>Scale\<close>

lemma vertex_at_map:
  "3 * i + 2 < length xs \<Longrightarrow>
   vertex_at (map f xs) i = (case vertex_at xs i of (x, y, z) \<Rightarrow> (f x, f y, f z))"
  by (simp add: vertex_at_def)

lemma deform_scale: "deform 0 pv (x, y, z) = (x * pv, y * pv, z * pv)"
  by (simp add: deform_def)

lemma dispatch_scale:
  assumes "operation p = 0" "vertex_count p = of_nat vc" "3 * vc < 2 ^ 32"
    and "length inp = 3 * vc" "length out = 3 * vc"
  shows "dispatchWorkgroups (workgroups vc) p inp out = Inr (map (\<lambda>c. c * param_value p) inp)"
proof -
  obtain out' where run: "dispatchWorkgroups (workgroups vc) p inp out = Inr out'"
    and len: "length out' = 3 * vc"
    and v: "\<And>i. i < vc \<Longrightarrow>
              vertex_at out' i = deform (operation p) (param_value p) (vertex_at inp i)"
    using dispatch_vertices [OF assms(2-5)] by blast
  have "out' = map (\<lambda>c. c * param_value p) inp"
  proof (rule vertex_at_eqI [where n = vc])
    show "length out' = 3 * vc" by (rule len)
    show "length (map (\<lambda>c. c * param_value p) inp) = 3 * vc" using assms(4) by simp
    fix i assume i: "i < vc"
    then have "3 * i + 2 < length inp" using assms(4) by simp
    then show "vertex_at out' i = vertex_at (map (\<lambda>c. c * param_value p) inp) i"
      using v [OF i] assms(1)
      by (cases "vertex_at inp i") (simp add: vertex_at_map deform_scale)
  qed
  then show ?thesis using run by simp
qed

lemma deformed_scale:
  assumes "operation p = 0" "3 * vc < 2 ^ 32" "length inp = 3 * vc"
  shows "deformed p inp vc = map (\<lambda>c. c * param_value p) inp"
proof -
  let ?p = "p\<lparr>vertex_count := of_nat vc\<rparr>"
  have "dispatchWorkgroups (workgroups vc) ?p inp (replicate (3 * vc) 0)
        = Inr (deformed ?p inp vc @ drop (3 * vc) (replicate (3 * vc) 0))"
    using assms by (intro dispatch_deformed) simp_all
  moreover have "dispatchWorkgroups (workgroups vc) ?p inp (replicate (3 * vc) 0)
        = Inr (map (\<lambda>c. c * param_value ?p) inp)"
    using assms by (intro dispatch_scale) simp_all
  ultimately show ?thesis
    by (simp add: deformed_def)
qed

text \<open>
  Claim C1. A dispatch with operation 0 (Scale) on a positions buffer of \<open>vc\<close> vertices
  returns the buffer in which every coordinate of every vertex is the input coordinate
  times \<open>param\<close>. With \<open>param = 1\<close> the result is the input itself, and Scale(2.0)
  on the generated cube doubles every coordinate: in the dispatch, and in the array that
  \<^verbatim>\<open>getProcessedVertices\<close> returns after \<^verbatim>\<open>processOperation\<close> on the engine as
  \<^verbatim>\<open>initApp\<close> sets it up, when 2.0 is read back from its 32 bits as 2.0.
\<close>

theorem scale_multiplies_every_coordinate:
  assumes "operation p = 0" "vertex_count p = of_nat vc" "3 * vc < 2 ^ 32"
    and "length inp = 3 * vc" "length out = 3 * vc"
  shows "dispatchWorkgroups (workgroups vc) p inp out = Inr (map (\<lambda>c. c * param_value p) inp)
       \<and> dispatchWorkgroups (workgroups vc) (p\<lparr>param_value := 1\<rparr>) inp out = Inr inp
       \<and> dispatchWorkgroups (workgroups 8)
            \<lparr>operation = 0, param_value = 2, vertex_count = 8, pad = 0\<rparr>
            cube_positions (replicate 24 0) = Inr (map (\<lambda>c. 2 * c) cube_positions)
       \<and> (dec (enc 2) = 2 \<longrightarrow>
            (case init_engine of
               Inl e \<Rightarrow> False
             | Inr st \<Rightarrow>
                 \<exists>st1 st2 r. processOperation enc dec st ''scale'' 2 = Inr st1
                   \<and> getProcessedVertices st1 = Inr (st2, r)
                   \<and> heap st2 ! r = Float32Array (map (\<lambda>c. 2 * c) cube_positions)
                   \<and> heap st2 ! 0 = Float32Array cube_positions))"
proof (intro conjI impI)
  show "dispatchWorkgroups (workgroups vc) p inp out = Inr (map (\<lambda>c. c * param_value p) inp)"
    using assms by (rule dispatch_scale)
  show "dispatchWorkgroups (workgroups vc) (p\<lparr>param_value := 1\<rparr>) inp out = Inr inp"
    using dispatch_scale [of "p\<lparr>param_value := 1\<rparr>" vc inp out] assms by simp
  show "dispatchWorkgroups (workgroups 8)
            \<lparr>operation = 0, param_value = 2, vertex_count = 8, pad = 0\<rparr>
            cube_positions (replicate 24 0) = Inr (map (\<lambda>c. 2 * c) cube_positions)"
    using dispatch_scale [of "\<lparr>operation = 0, param_value = 2, vertex_count = 8, pad = 0\<rparr>" 8
        cube_positions "replicate 24 0"]
    by (simp add: cube_positions_def)
next
  assume f: "dec (enc 2) = 2"
  obtain st where i: "init_engine = Inr st"
    using init_engine_value by blast
  have d: "deformed \<lparr>operation = 0, param_value = 2, vertex_count = 8, pad = 0\<rparr> cube_positions 8
           = map (\<lambda>c. 2 * c) cube_positions"
    using deformed_scale [of "\<lparr>operation = 0, param_value = 2, vertex_count = 8, pad = 0\<rparr>" 8
        cube_positions]
    by (simp add: cube_positions_def)
  show "case init_engine of
               Inl e \<Rightarrow> False
             | Inr st \<Rightarrow>
                 \<exists>st1 st2 r. processOperation enc dec st ''scale'' 2 = Inr st1
                   \<and> getProcessedVertices st1 = Inr (st2, r)
                   \<and> heap st2 ! r = Float32Array (map (\<lambda>c. 2 * c) cube_positions)
                   \<and> heap st2 ! 0 = Float32Array cube_positions"
    using process_then_fetch [OF i, of enc dec "''scale''" 2]
    unfolding i sum.case scale_name f d .
qed

theorem scale_multiplies_every_coordinate_witness:
  "operation \<lparr>operation = 0, param_value = 2, vertex_count = 8, pad = 0\<rparr> = 0
   \<and> vertex_count \<lparr>operation = 0, param_value = 2, vertex_count = 8, pad = 0\<rparr> = of_nat 8
   \<and> 3 * (8::nat) < 2 ^ 32
   \<and> length cube_positions = 3 * 8
   \<and> length (replicate 24 (0::real)) = 3 * 8
   \<and> (\<lambda>w::u32. if w = 0x40000000 then 2 else (0::real))
        ((\<lambda>x::real. if x = 2 then 0x40000000 else 0) 2) = 2
   \<and> dispatchWorkgroups (workgroups 8) \<lparr>operation = 0, param_value = 2, vertex_count = 8, pad = 0\<rparr>
        cube_positions (replicate 24 0)
      = Inr [-1, -1, -1, 1, -1, -1, 1, 1, -1, -1, 1, -1, -1, -1, 1, 1, -1, 1, 1, 1, 1, -1, 1, 1]
   \<and> (case init_engine of
         Inl e \<Rightarrow> False
       | Inr st \<Rightarrow>
           \<exists>st1 st2 r.
             processOperation (\<lambda>x. if x = 2 then 0x40000000 else 0)
               (\<lambda>w. if w = 0x40000000 then 2 else 0) st ''scale'' 2 = Inr st1
             \<and> getProcessedVertices st1 = Inr (st2, r)
             \<and> heap st2 ! r = Float32Array (map (\<lambda>c. 2 * c) cube_positions)
             \<and> heap st2 ! 0 = Float32Array cube_positions)"
proof -
  let ?p = "\<lparr>operation = 0, param_value = 2, vertex_count = 8, pad = 0\<rparr>"
  let ?enc = "\<lambda>x::real. if x = 2 then (0x40000000 :: u32) else 0"
  let ?dec = "\<lambda>w::u32. if w = 0x40000000 then (2::real) else 0"
  have h: "operation ?p = 0" "vertex_count ?p = of_nat 8" "3 * (8::nat) < 2 ^ 32"
    "length cube_positions = 3 * 8" "length (replicate 24 (0::real)) = 3 * 8"
    by (simp_all add: cube_positions_def)
  have f: "?dec (?enc 2) = 2"
    by simp
  note T = scale_multiplies_every_coordinate [OF h, where enc = ?enc and dec = ?dec]
  from T have a: "dispatchWorkgroups (workgroups 8) ?p cube_positions (replicate 24 0)
      = Inr [-1, -1, -1, 1, -1, -1, 1, 1, -1, -1, 1, -1, -1, -1, 1, 1, -1, 1, 1, 1, 1, -1, 1, 1]"
    by (simp add: cube_positions_def)
  from T f have b: "case init_engine of
         Inl e \<Rightarrow> False
       | Inr st \<Rightarrow>
           \<exists>st1 st2 r.
             processOperation ?enc ?dec st ''scale'' 2 = Inr st1
             \<and> getProcessedVertices st1 = Inr (st2, r)
             \<and> heap st2 ! r = Float32Array (map (\<lambda>c. 2 * c) cube_positions)
             \<and> heap st2 ! 0 = Float32Array cube_positions"
    by blast
  show ?thesis
    by (intro conjI h f a b)
qed

subsection \<open>Unknown operation names\<close>

text \<open>
  Claim C7. An operation name other than the four known ones makes \<^verbatim>\<open>processOperation\<close>
  do exactly what it does for \<open>''scale''\<close> with the same \<open>param\<close>, and that is a Scale:
  on an engine that is ready the call ends without an error, the first word of the
  uniform buffer, the kernel's operation code, is 0 after it, and the bound output
  buffer holds every coordinate of the input buffer times the \<open>param\<close> the kernel reads.
\<close>

theorem unknown_operation_defaults_to_scale:
  assumes "name \<notin> {''scale'', ''rotate'', ''translate'', ''inflate''}"
  shows "processOperation enc dec st name param = processOperation enc dec st ''scale'' param
       \<and> ToUint32 (nullish (get_property OP_MAP name) (Number 0)) = 0
       \<and> (ready st \<longrightarrow>
            (\<exists>st' md i out u xs.
               processOperation enc dec st name param = Inr st' \<and> ready st'
               \<and> meshData st = Some md \<and> bindGroup st = Some (i, out, u)
               \<and> uniformBuffer st = Some u \<and> gpu st ! i = FloatData xs
               \<and> gpu st' ! u =
                   ByteData (le_bytes 0 @ le_bytes (enc param)
                             @ le_bytes (of_nat (vertexCount md)) @ le_bytes 0)
               \<and> operation (read_Params dec
                     (le_bytes 0 @ le_bytes (enc param)
                      @ le_bytes (of_nat (vertexCount md)) @ le_bytes 0)) = 0
               \<and> gpu st' ! out = FloatData (map (\<lambda>c. c * dec (enc param)) xs)))"
proof (intro conjI impI)
  show z: "ToUint32 (nullish (get_property OP_MAP name) (Number 0)) = 0"
    using assms by (rule unknown_name_is_scale)
  show "processOperation enc dec st name param = processOperation enc dec st ''scale'' param"
    by (rule processOperation_opcode) (simp only: z scale_name)
  assume "ready st"
  then obtain st' md i out u xs where p:
    "processOperation enc dec st name param = Inr st'" "ready st'"
    "meshData st = Some md" "bindGroup st = Some (i, out, u)"
    "uniformBuffer st = Some u" "gpu st ! i = FloatData xs"
    "length xs = 3 * vertexCount md" "3 * vertexCount md < 2 ^ 32"
    "gpu st' ! u =
       ByteData (le_bytes (ToUint32 (nullish (get_property OP_MAP name) (Number 0)))
                 @ le_bytes (enc param) @ le_bytes (of_nat (vertexCount md)) @ le_bytes 0)"
    "gpu st' ! out =
       FloatData (deformed
         \<lparr>operation = ToUint32 (nullish (get_property OP_MAP name) (Number 0)),
          param_value = dec (enc param),
          vertex_count = of_nat (vertexCount md), pad = 0\<rparr> xs (vertexCount md))"
    using processOperation_result [of st enc dec name param] by blast
  have u: "gpu st' ! u =
             ByteData (le_bytes 0 @ le_bytes (enc param)
                       @ le_bytes (of_nat (vertexCount md)) @ le_bytes 0)"
    using p(9) unfolding z .
  have o: "operation (read_Params dec
                     (le_bytes 0 @ le_bytes (enc param)
                      @ le_bytes (of_nat (vertexCount md)) @ le_bytes 0)) = 0"
    by (simp add: read_Params_payload)
  have "deformed \<lparr>operation = 0, param_value = dec (enc param),
                   vertex_count = of_nat (vertexCount md), pad = 0\<rparr> xs (vertexCount md)
        = map (\<lambda>c. c * dec (enc param)) xs"
    using deformed_scale
      [of "\<lparr>operation = 0, param_value = dec (enc param),
            vertex_count = of_nat (vertexCount md), pad = 0\<rparr>" "vertexCount md" xs] p(7,8)
    by simp
  then have d: "gpu st' ! out = FloatData (map (\<lambda>c. c * dec (enc param)) xs)"
    using p(10) unfolding z by simp
  show "\<exists>st' md i out u xs.
               processOperation enc dec st name param = Inr st' \<and> ready st'
               \<and> meshData st = Some md \<and> bindGroup st = Some (i, out, u)
               \<and> uniformBuffer st = Some u \<and> gpu st ! i = FloatData xs
               \<and> gpu st' ! u =
                   ByteData (le_bytes 0 @ le_bytes (enc param)
                             @ le_bytes (of_nat (vertexCount md)) @ le_bytes 0)
               \<and> operation (read_Params dec
                     (le_bytes 0 @ le_bytes (enc param)
                      @ le_bytes (of_nat (vertexCount md)) @ le_bytes 0)) = 0
               \<and> gpu st' ! out = FloatData (map (\<lambda>c. c * dec (enc param)) xs)"
    using p(1-6) u o d by blast
qed

theorem unknown_operation_defaults_to_scale_witness:
  "''toString'' \<notin> {''scale'', ''rotate'', ''translate'', ''inflate''}
   \<and> get_property OP_MAP ''toString'' = Inherited
   \<and> (case init_engine of
        Inl e \<Rightarrow> False
      | Inr st \<Rightarrow>
          ready st
          \<and> (\<exists>st'. processOperation (\<lambda>x. if x = 2 then 0x40000000 else 0)
                      (\<lambda>w. if w = 0x40000000 then 2 else 0) st ''toString'' 2 = Inr st'
                \<and> gpu st' ! 2 = ByteData [0, 0, 0, 0,   0, 0, 0, 0x40,   8, 0, 0, 0,   0, 0, 0, 0]
                \<and> gpu st' ! 1 = FloatData (map (\<lambda>c. c * 2) cube_positions))
          \<and> processOperation (\<lambda>x. if x = 2 then 0x40000000 else 0)
                (\<lambda>w. if w = 0x40000000 then 2 else 0) st ''toString'' 2
              = processOperation (\<lambda>x. if x = 2 then 0x40000000 else 0)
                  (\<lambda>w. if w = 0x40000000 then 2 else 0) st ''scale'' 2)"
proof -
  let ?enc = "\<lambda>x::real. if x = 2 then (0x40000000 :: u32) else 0"
  let ?dec = "\<lambda>w::u32. if w = 0x40000000 then (2::real) else 0"
  obtain st where i: "init_engine = Inr st"
    using init_engine_value by blast
  have r: "ready st"
    using init_engine_ready unfolding i by simp
  have s: "meshData st = Some \<lparr>vertices = 0, indices = 1, vertexCount = 8\<rparr>"
    "bindGroup st = Some (0, 1, 2)" "gpu st ! 0 = FloatData cube_positions"
    using i unfolding init_engine_value by auto
  have n: "''toString'' \<notin> {''scale'', ''rotate'', ''translate'', ''inflate''}"
    by simp
  have g: "get_property OP_MAP ''toString'' = Inherited"
    by (simp add: get_property_def OP_MAP_def Object_prototype_keys_def)
  note T = unknown_operation_defaults_to_scale [OF n, of ?enc ?dec st 2]
  from T r obtain st' md j out u xs where p:
    "processOperation ?enc ?dec st ''toString'' 2 = Inr st'"
    "meshData st = Some md" "bindGroup st = Some (j, out, u)" "gpu st ! j = FloatData xs"
    "gpu st' ! u = ByteData (le_bytes 0 @ le_bytes (?enc 2)
                             @ le_bytes (of_nat (vertexCount md)) @ le_bytes 0)"
    "gpu st' ! out = FloatData (map (\<lambda>c. c * ?dec (?enc 2)) xs)"
    by blast
  have k: "vertexCount md = 8" "j = 0" "out = 1" "u = 2" "xs = cube_positions"
    using p(2,3,4) s by auto
  have b: "le_bytes 0 @ le_bytes (?enc 2) @ le_bytes (of_nat 8) @ le_bytes 0
           = [0, 0, 0, 0,   0, 0, 0, 0x40,   8, 0, 0, 0,   0, 0, 0, 0]"
    by (simp add: le_bytes_def)
  have a: "\<exists>st'. processOperation ?enc ?dec st ''toString'' 2 = Inr st'
                \<and> gpu st' ! 2 = ByteData [0, 0, 0, 0,   0, 0, 0, 0x40,   8, 0, 0, 0,   0, 0, 0, 0]
                \<and> gpu st' ! 1 = FloatData (map (\<lambda>c. c * 2) cube_positions)"
    using p(1,5,6) k b by auto
  from T have e: "processOperation ?enc ?dec st ''toString'' 2
              = processOperation ?enc ?dec st ''scale'' 2"
    by blast
  show ?thesis
    unfolding i sum.case by (intro conjI n g r a e)
qed

subsection \<open>Translate\<close>

lemma dispatch_translate:
  assumes "operation p = 2" "vertex_count p = of_nat vc" "3 * vc < 2 ^ 32"
    and "length inp = 3 * vc" "length out = 3 * vc"
  shows "\<exists>out'. dispatchWorkgroups (workgroups vc) p inp out = Inr out' \<and> length out' = 3 * vc \<and>
           (\<forall>idx<vc. out' ! (3 * idx) = inp ! (3 * idx)
                    \<and> out' ! (3 * idx + 1) = inp ! (3 * idx + 1) + (param_value p - 1) * 0.5
                    \<and> out' ! (3 * idx + 2) = inp ! (3 * idx + 2))"
proof -
  obtain out' where run: "dispatchWorkgroups (workgroups vc) p inp out = Inr out'"
    and len: "length out' = 3 * vc"
    and v: "\<And>i. i < vc \<Longrightarrow>
              vertex_at out' i = deform (operation p) (param_value p) (vertex_at inp i)"
    using dispatch_vertices [OF assms(2-5)] by blast
  have "out' ! (3 * idx) = inp ! (3 * idx)
        \<and> out' ! (3 * idx + 1) = inp ! (3 * idx + 1) + (param_value p - 1) * 0.5
        \<and> out' ! (3 * idx + 2) = inp ! (3 * idx + 2)" if "idx < vc" for idx
    using v [OF that] assms(1) by (simp add: vertex_at_def deform_translate)
  then show ?thesis using run len by blast
qed

lemma translate_name: "ToUint32 (nullish (get_property OP_MAP ''translate'') (Number 0)) = 2"
  by (simp add: get_property_def OP_MAP_def nullish_def ToUint32_def)

lemma deformed_translate:
  assumes "operation p = 2" "length inp = 3 * vc"
  shows "length (deformed p inp vc) = 3 * vc
         \<and> (\<forall>idx<vc. deformed p inp vc ! (3 * idx) = inp ! (3 * idx)
                \<and> deformed p inp vc ! (3 * idx + 1) = inp ! (3 * idx + 1) + (param_value p - 1) * 0.5
                \<and> deformed p inp vc ! (3 * idx + 2) = inp ! (3 * idx + 2))"
proof (intro conjI allI impI)
  show "length (deformed p inp vc) = 3 * vc"
    by (rule length_deformed)
  fix idx assume "idx < vc"
  then have v: "vertex_at (deformed p inp vc) idx = deform 2 (param_value p) (vertex_at inp idx)"
    using vertex_at_deformed [of idx vc p inp "[]"] assms(1) by simp
  show "deformed p inp vc ! (3 * idx) = inp ! (3 * idx)"
    "deformed p inp vc ! (3 * idx + 1) = inp ! (3 * idx + 1) + (param_value p - 1) * 0.5"
    "deformed p inp vc ! (3 * idx + 2) = inp ! (3 * idx + 2)"
    using v by (simp_all add: vertex_at_def deform_translate)
qed

text \<open>
  Claim C2. A dispatch with operation 2 (Translate) leaves the x and z coordinate of
  every vertex as they are and adds \<open>(param - 1) * 0.5\<close> to its y coordinate. With
  \<open>param = 3\<close> every y grows by 1: in any dispatch, on the generated cube, and in the
  array that \<^verbatim>\<open>getProcessedVertices\<close> returns after \<^verbatim>\<open>processOperation\<close> on the engine
  as \<^verbatim>\<open>initApp\<close> sets it up, when 3.0 is read back from its 32 bits as 3.0.
\<close>

theorem translate_shifts_y_only:
  assumes "operation p = 2" "vertex_count p = of_nat vc" "3 * vc < 2 ^ 32"
    and "length inp = 3 * vc" "length out = 3 * vc"
  shows "(\<exists>out'. dispatchWorkgroups (workgroups vc) p inp out = Inr out' \<and> length out' = 3 * vc \<and>
           (\<forall>idx<vc. out' ! (3 * idx) = inp ! (3 * idx)
                    \<and> out' ! (3 * idx + 1) = inp ! (3 * idx + 1) + (param_value p - 1) * 0.5
                    \<and> out' ! (3 * idx + 2) = inp ! (3 * idx + 2)))
       \<and> (\<exists>out'. dispatchWorkgroups (workgroups vc) (p\<lparr>param_value := 3\<rparr>) inp out = Inr out' \<and>
           length out' = 3 * vc \<and>
           (\<forall>idx<vc. out' ! (3 * idx) = inp ! (3 * idx)
                    \<and> out' ! (3 * idx + 1) = inp ! (3 * idx + 1) + 1
                    \<and> out' ! (3 * idx + 2) = inp ! (3 * idx + 2)))
       \<and> dispatchWorkgroups (workgroups 8)
            \<lparr>operation = 2, param_value = 3, vertex_count = 8, pad = 0\<rparr>
            cube_positions (replicate 24 0)
          = Inr [-0.5, 0.5, -0.5,    0.5, 0.5, -0.5,    0.5, 1.5, -0.5,   -0.5, 1.5, -0.5,
                 -0.5, 0.5,  0.5,    0.5, 0.5,  0.5,    0.5, 1.5,  0.5,   -0.5, 1.5,  0.5]
       \<and> (dec (enc 3) = 3 \<longrightarrow>
            (case init_engine of
               Inl e \<Rightarrow> False
             | Inr st \<Rightarrow>
                 \<exists>st1 st2 r ys. processOperation enc dec st ''translate'' 3 = Inr st1
                   \<and> getProcessedVertices st1 = Inr (st2, r)
                   \<and> heap st2 ! r = Float32Array ys \<and> length ys = 24
                   \<and> (\<forall>idx<8. ys ! (3 * idx) = cube_positions ! (3 * idx)
                          \<and> ys ! (3 * idx + 1) = cube_positions ! (3 * idx + 1) + 1
                          \<and> ys ! (3 * idx + 2) = cube_positions ! (3 * idx + 2))))"
proof (intro conjI impI)
  show "\<exists>out'. dispatchWorkgroups (workgroups vc) p inp out = Inr out' \<and> length out' = 3 * vc \<and>
           (\<forall>idx<vc. out' ! (3 * idx) = inp ! (3 * idx)
                    \<and> out' ! (3 * idx + 1) = inp ! (3 * idx + 1) + (param_value p - 1) * 0.5
                    \<and> out' ! (3 * idx + 2) = inp ! (3 * idx + 2))"
    using assms by (rule dispatch_translate)
  show "\<exists>out'. dispatchWorkgroups (workgroups vc) (p\<lparr>param_value := 3\<rparr>) inp out = Inr out' \<and>
           length out' = 3 * vc \<and>
           (\<forall>idx<vc. out' ! (3 * idx) = inp ! (3 * idx)
                    \<and> out' ! (3 * idx + 1) = inp ! (3 * idx + 1) + 1
                    \<and> out' ! (3 * idx + 2) = inp ! (3 * idx + 2))"
    using dispatch_translate [of "p\<lparr>param_value := 3\<rparr>" vc inp out] assms by simp
  let ?p = "\<lparr>operation = 2, param_value = 3, vertex_count = 8, pad = 0\<rparr>"
  show "dispatchWorkgroups (workgroups 8) ?p cube_positions (replicate 24 0)
          = Inr [-0.5, 0.5, -0.5,    0.5, 0.5, -0.5,    0.5, 1.5, -0.5,   -0.5, 1.5, -0.5,
                 -0.5, 0.5,  0.5,    0.5, 0.5,  0.5,    0.5, 1.5,  0.5,   -0.5, 1.5,  0.5]"
  proof (rule dispatch_pointwise)
    fix idx :: nat
    assume "idx < 8"
    then have "idx \<in> {0, 1, 2, 3, 4, 5, 6, 7}"
      by auto
    then show "deform (operation ?p) (param_value ?p) (vertex_at cube_positions idx) =
          vertex_at [-0.5, 0.5, -0.5,    0.5, 0.5, -0.5,    0.5, 1.5, -0.5,   -0.5, 1.5, -0.5,
                 -0.5, 0.5,  0.5,    0.5, 0.5,  0.5,    0.5, 1.5,  0.5,   -0.5, 1.5,  0.5] idx"
      by (elim insertE emptyE) (simp_all add: vertex_at_def cube_positions_def deform_translate)
  qed (simp_all add: cube_positions_def)
next
  assume f: "dec (enc 3) = 3"
  obtain st where i: "init_engine = Inr st"
    using init_engine_value by blast
  let ?q = "\<lparr>operation = 2, param_value = 3, vertex_count = 8, pad = 0\<rparr>"
  have d: "length (deformed ?q cube_positions 8) = 24
           \<and> (\<forall>idx<8. deformed ?q cube_positions 8 ! (3 * idx) = cube_positions ! (3 * idx)
                  \<and> deformed ?q cube_positions 8 ! (3 * idx + 1) = cube_positions ! (3 * idx + 1) + 1
                  \<and> deformed ?q cube_positions 8 ! (3 * idx + 2) = cube_positions ! (3 * idx + 2))"
    using deformed_translate [of ?q cube_positions 8] by (simp add: cube_positions_def)
  obtain st1 st2 r where e:
    "processOperation enc dec st ''translate'' 3 = Inr st1"
    "getProcessedVertices st1 = Inr (st2, r)"
    "heap st2 ! r = Float32Array (deformed ?q cube_positions 8)"
    using process_then_fetch [OF i, of enc dec "''translate''" 3]
    unfolding translate_name f by blast
  show "case init_engine of
               Inl e \<Rightarrow> False
             | Inr st \<Rightarrow>
                 \<exists>st1 st2 r ys. processOperation enc dec st ''translate'' 3 = Inr st1
                   \<and> getProcessedVertices st1 = Inr (st2, r)
                   \<and> heap st2 ! r = Float32Array ys \<and> length ys = 24
                   \<and> (\<forall>idx<8. ys ! (3 * idx) = cube_positions ! (3 * idx)
                          \<and> ys ! (3 * idx + 1) = cube_positions ! (3 * idx + 1) + 1
                          \<and> ys ! (3 * idx + 2) = cube_positions ! (3 * idx + 2))"
    unfolding i sum.case using e d by blast
qed

theorem translate_shifts_y_only_witness:
  "operation \<lparr>operation = 2, param_value = 3, vertex_count = 8, pad = 0\<rparr> = 2
   \<and> vertex_count \<lparr>operation = 2, param_value = 3, vertex_count = 8, pad = 0\<rparr> = of_nat 8
   \<and> 3 * (8::nat) < 2 ^ 32
   \<and> length cube_positions = 3 * 8
   \<and> length (replicate 24 (0::real)) = 3 * 8
   \<and> (\<lambda>w::u32. if w = 0x40400000 then 3 else (0::real))
        ((\<lambda>x::real. if x = 3 then 0x40400000 else 0) 3) = 3
   \<and> dispatchWorkgroups (workgroups 8) \<lparr>operation = 2, param_value = 3, vertex_count = 8, pad = 0\<rparr>
        cube_positions (replicate 24 0)
      = Inr [-0.5, 0.5, -0.5,    0.5, 0.5, -0.5,    0.5, 1.5, -0.5,   -0.5, 1.5, -0.5,
             -0.5, 0.5,  0.5,    0.5, 0.5,  0.5,    0.5, 1.5,  0.5,   -0.5, 1.5,  0.5]
   \<and> (case init_engine of
         Inl e \<Rightarrow> False
       | Inr st \<Rightarrow>
           \<exists>st1 st2 r ys.
             processOperation (\<lambda>x. if x = 3 then 0x40400000 else 0)
               (\<lambda>w. if w = 0x40400000 then 3 else 0) st ''translate'' 3 = Inr st1
             \<and> getProcessedVertices st1 = Inr (st2, r)
             \<and> heap st2 ! r = Float32Array ys \<and> length ys = 24
             \<and> ys ! (3 * 0 + 1) = cube_positions ! (3 * 0 + 1) + 1)"
proof -
  let ?p = "\<lparr>operation = 2, param_value = 3, vertex_count = 8, pad = 0\<rparr>"
  let ?enc = "\<lambda>x::real. if x = 3 then (0x40400000 :: u32) else 0"
  let ?dec = "\<lambda>w::u32. if w = 0x40400000 then (3::real) else 0"
  have h: "operation ?p = 2" "vertex_count ?p = of_nat 8" "3 * (8::nat) < 2 ^ 32"
    "length cube_positions = 3 * 8" "length (replicate 24 (0::real)) = 3 * 8"
    by (simp_all add: cube_positions_def)
  have f: "?dec (?enc 3) = 3"
    by simp
  note T = translate_shifts_y_only [OF h, where enc = ?enc and dec = ?dec]
  from T have a: "dispatchWorkgroups (workgroups 8) ?p cube_positions (replicate 24 0)
      = Inr [-0.5, 0.5, -0.5,    0.5, 0.5, -0.5,    0.5, 1.5, -0.5,   -0.5, 1.5, -0.5,
             -0.5, 0.5,  0.5,    0.5, 0.5,  0.5,    0.5, 1.5,  0.5,   -0.5, 1.5,  0.5]"
    by blast
  obtain st where i: "init_engine = Inr st"
    using init_engine_value by blast
  from T f obtain st1 st2 r ys where e:
    "processOperation ?enc ?dec st ''translate'' 3 = Inr st1"
    "getProcessedVertices st1 = Inr (st2, r)"
    "heap st2 ! r = Float32Array ys" "length ys = 24"
    "\<forall>idx<8. ys ! (3 * idx) = cube_positions ! (3 * idx)
             \<and> ys ! (3 * idx + 1) = cube_positions ! (3 * idx + 1) + 1
             \<and> ys ! (3 * idx + 2) = cube_positions ! (3 * idx + 2)"
    unfolding i sum.case by blast
  from e(5) have "ys ! (3 * 0 + 1) = cube_positions ! (3 * 0 + 1) + 1"
    by (elim allE [of _ 0]) simp
  with e(1-4) have b: "case init_engine of
         Inl e \<Rightarrow> False
       | Inr st \<Rightarrow>
           \<exists>st1 st2 r ys.
             processOperation ?enc ?dec st ''translate'' 3 = Inr st1
             \<and> getProcessedVertices st1 = Inr (st2, r)
             \<and> heap st2 ! r = Float32Array ys \<and> length ys = 24
             \<and> ys ! (3 * 0 + 1) = cube_positions ! (3 * 0 + 1) + 1"
    unfolding i sum.case by blast
  show ?thesis
    by (intro conjI h f a b)
qed

subsection \<open>Rotate\<close>

text \<open>
  Claim C4. Operation 1 (Rotate) turns a vertex about the y axis by the angle
  \<open>param * 3.14159265\<close>: \<open>x' = x cos + z sin\<close>, \<open>y' = y\<close>, \<open>z' = - x sin + z cos\<close>. A
  dispatch with \<open>param = \<theta> / \<pi>\<close> followed by a dispatch with \<open>param = - \<theta> / \<pi>\<close> on its
  result gives back the first input, exactly, in real arithmetic.
\<close>

theorem rotate_round_trip:
  assumes "operation p = 1" "vertex_count p = of_nat vc" "3 * vc < 2 ^ 32"
    and "length inp = 3 * vc" "length out = 3 * vc" "length out2 = 3 * vc"
  shows "(\<exists>out1. dispatchWorkgroups (workgroups vc) (p\<lparr>param_value := \<theta> / pi\<rparr>) inp out = Inr out1
            \<and> dispatchWorkgroups (workgroups vc) (p\<lparr>param_value := - \<theta> / pi\<rparr>) out1 out2 = Inr inp)
       \<and> deform 1 (- \<theta> / pi) (deform 1 (\<theta> / pi) (x, y, z)) = (x, y, z)
       \<and> deform 1 (\<theta> / pi) (x, y, z) =
            (x * cos (\<theta> / pi * 3.14159265) + z * sin (\<theta> / pi * 3.14159265),
             y,
             - x * sin (\<theta> / pi * 3.14159265) + z * cos (\<theta> / pi * 3.14159265))"
proof (intro conjI)
  let ?p1 = "p\<lparr>param_value := \<theta> / pi\<rparr>" and ?p2 = "p\<lparr>param_value := - \<theta> / pi\<rparr>"
  obtain out1 where run: "dispatchWorkgroups (workgroups vc) ?p1 inp out = Inr out1"
    and len: "length out1 = 3 * vc"
    and v: "\<And>i. i < vc \<Longrightarrow>
              vertex_at out1 i = deform (operation ?p1) (param_value ?p1) (vertex_at inp i)"
    using dispatch_vertices [of ?p1 vc inp out] assms by auto
  have "dispatchWorkgroups (workgroups vc) ?p2 out1 out2 = Inr inp"
  proof (rule dispatch_pointwise)
    fix i assume "i < vc"
    then show "deform (operation ?p2) (param_value ?p2) (vertex_at out1 i) = vertex_at inp i"
      using rotate_inverse [of "\<theta> / pi" "vertex_at inp i"] assms(1) by (simp add: v)
  qed (use assms len in simp_all)
  with run show "\<exists>out1. dispatchWorkgroups (workgroups vc) ?p1 inp out = Inr out1
            \<and> dispatchWorkgroups (workgroups vc) ?p2 out1 out2 = Inr inp"
    by blast
  show "deform 1 (- \<theta> / pi) (deform 1 (\<theta> / pi) (x, y, z)) = (x, y, z)"
    using rotate_inverse [of "\<theta> / pi" "(x, y, z)"] by simp
  show "deform 1 (\<theta> / pi) (x, y, z) =
            (x * cos (\<theta> / pi * 3.14159265) + z * sin (\<theta> / pi * 3.14159265),
             y,
             - x * sin (\<theta> / pi * 3.14159265) + z * cos (\<theta> / pi * 3.14159265))"
    by (rule deform_rotate)
qed

theorem rotate_round_trip_witness:
  "operation \<lparr>operation = 1, param_value = 0, vertex_count = 8, pad = 0\<rparr> = 1
   \<and> vertex_count \<lparr>operation = 1, param_value = 0, vertex_count = 8, pad = 0\<rparr> = of_nat 8
   \<and> 3 * (8::nat) < 2 ^ 32
   \<and> length cube_positions = 3 * 8
   \<and> length (replicate 24 (0::real)) = 3 * 8
   \<and> (\<exists>out1. dispatchWorkgroups (workgroups 8)
                \<lparr>operation = 1, param_value = 1 / pi, vertex_count = 8, pad = 0\<rparr>
                cube_positions (replicate 24 0) = Inr out1
            \<and> dispatchWorkgroups (workgroups 8)
                \<lparr>operation = 1, param_value = - 1 / pi, vertex_count = 8, pad = 0\<rparr>
                out1 (replicate 24 0) = Inr cube_positions)"
  using rotate_round_trip
    [of "\<lparr>operation = 1, param_value = 0, vertex_count = 8, pad = 0\<rparr>" 8
        cube_positions "replicate 24 0" "replicate 24 0" 1]
  by (simp add: cube_positions_def)

subsection \<open>Inflate\<close>

lemma dist0_inflate_zero:
  assumes "dist0 v > 0.001"
  shows "dist0 (scaled (2 - 0.5 / dist0 v) v) = \<bar>2 * dist0 v - 0.5\<bar>"
proof -
  have pos: "dist0 v > 0" using assms by simp
  have "\<bar>2 - 0.5 / dist0 v\<bar> * dist0 v = \<bar>(2 - 0.5 / dist0 v) * dist0 v\<bar>"
    using pos by (simp add: abs_mult)
  also have "(2 - 0.5 / dist0 v) * dist0 v = 2 * dist0 v - 0.5"
    using pos by (simp add: field_simps)
  finally show ?thesis by (simp add: dist0_scaled)
qed

lemma dist0_inflate_two:
  assumes "dist0 v > 0.001"
  shows "dist0 (scaled (0.5 / dist0 v) v) = 0.5"
proof -
  have pos: "dist0 v > 0" using assms by simp
  then show ?thesis by (simp add: dist0_scaled)
qed

lemma inflate_zero_distance:
  "dist0 v > 0.001 \<longrightarrow>
     deform 3 0 v = scaled (2 - 0.5 / dist0 v) v \<and> dist0 (deform 3 0 v) = \<bar>2 * dist0 v - 0.5\<bar>"
proof (intro impI conjI)
  assume h: "dist0 v > 0.001"
  show "deform 3 0 v = scaled (2 - 0.5 / dist0 v) v"
    by (rule inflate_zero [OF h])
  show "dist0 (deform 3 0 v) = \<bar>2 * dist0 v - 0.5\<bar>"
    unfolding inflate_zero [OF h] by (rule dist0_inflate_zero [OF h])
qed

lemma inflate_two_distance:
  "dist0 v > 0.001 \<longrightarrow>
     deform 3 2 v = scaled (0.5 / dist0 v) v \<and> dist0 (deform 3 2 v) = 0.5"
proof (intro impI conjI)
  assume h: "dist0 v > 0.001"
  show "deform 3 2 v = scaled (0.5 / dist0 v) v"
    by (rule inflate_two [OF h])
  show "dist0 (deform 3 2 v) = 0.5"
    unfolding inflate_two [OF h] by (rule dist0_inflate_two [OF h])
qed

lemma dispatch_inflate:
  assumes "operation p = 3" "vertex_count p = of_nat vc" "3 * vc < 2 ^ 32"
    and "length inp = 3 * vc" "length out = 3 * vc"
    and "\<And>v. P v (deform 3 pv v)"
  shows "\<exists>out'. dispatchWorkgroups (workgroups vc) (p\<lparr>param_value := pv\<rparr>) inp out = Inr out'
           \<and> length out' = 3 * vc
           \<and> (\<forall>idx<vc. P (vertex_at inp idx) (vertex_at out' idx))"
proof -
  obtain out' where "dispatchWorkgroups (workgroups vc) (p\<lparr>param_value := pv\<rparr>) inp out = Inr out'"
    and "length out' = 3 * vc"
    and "\<And>i. i < vc \<Longrightarrow> vertex_at out' i = deform 3 pv (vertex_at inp i)"
    using dispatch_vertices [of "p\<lparr>param_value := pv\<rparr>" vc inp out] assms(1-5) by auto
  then show ?thesis
    by (intro exI [of _ out'] conjI allI impI) (simp_all add: assms(6))
qed

text \<open>
  Claim C3, as the kernel has it. Operation 3 (Inflate) with \<open>param = 1\<close> maps every
  vertex to itself. With \<open>param = 0\<close> a vertex \<open>v\<close> whose distance \<open>len\<close> from the origin
  exceeds 0.001 is mapped to \<open>(2 - 0.5 / len) v\<close>, at distance \<open>\<bar>2 len - 0.5\<bar>\<close> from the
  origin; it is \<open>param = 2\<close> that maps it to \<open>(0.5 / len) v\<close>, at distance 0.5 along
  its direction. A vertex with \<open>len \<le> 0.001\<close> is left unchanged for every \<open>param\<close>.
\<close>

theorem inflate_identity_extremes_and_guard:
  assumes "operation p = 3" "vertex_count p = of_nat vc" "3 * vc < 2 ^ 32"
    and "length inp = 3 * vc" "length out = 3 * vc"
  shows "dispatchWorkgroups (workgroups vc) (p\<lparr>param_value := 1\<rparr>) inp out = Inr inp
       \<and> (\<exists>out'. dispatchWorkgroups (workgroups vc) (p\<lparr>param_value := 0\<rparr>) inp out = Inr out'
            \<and> length out' = 3 * vc
            \<and> (\<forall>idx<vc. dist0 (vertex_at inp idx) > 0.001 \<longrightarrow>
                  vertex_at out' idx
                    = scaled (2 - 0.5 / dist0 (vertex_at inp idx)) (vertex_at inp idx)
                  \<and> dist0 (vertex_at out' idx) = \<bar>2 * dist0 (vertex_at inp idx) - 0.5\<bar>))
       \<and> (\<exists>out'. dispatchWorkgroups (workgroups vc) (p\<lparr>param_value := 2\<rparr>) inp out = Inr out'
            \<and> length out' = 3 * vc
            \<and> (\<forall>idx<vc. dist0 (vertex_at inp idx) > 0.001 \<longrightarrow>
                  vertex_at out' idx = scaled (0.5 / dist0 (vertex_at inp idx)) (vertex_at inp idx)
                  \<and> dist0 (vertex_at out' idx) = 0.5))
       \<and> (\<exists>out'. dispatchWorkgroups (workgroups vc) (p\<lparr>param_value := pv\<rparr>) inp out = Inr out'
            \<and> length out' = 3 * vc
            \<and> (\<forall>idx<vc. dist0 (vertex_at inp idx) \<le> 0.001 \<longrightarrow>
                  vertex_at out' idx = vertex_at inp idx))"
proof (intro conjI)
  show "dispatchWorkgroups (workgroups vc) (p\<lparr>param_value := 1\<rparr>) inp out = Inr inp"
    by (rule dispatch_pointwise) (use assms in \<open>simp_all add: inflate_one\<close>)
  show "\<exists>out'. dispatchWorkgroups (workgroups vc) (p\<lparr>param_value := 0\<rparr>) inp out = Inr out'
            \<and> length out' = 3 * vc
            \<and> (\<forall>idx<vc. dist0 (vertex_at inp idx) > 0.001 \<longrightarrow>
                  vertex_at out' idx
                    = scaled (2 - 0.5 / dist0 (vertex_at inp idx)) (vertex_at inp idx)
                  \<and> dist0 (vertex_at out' idx) = \<bar>2 * dist0 (vertex_at inp idx) - 0.5\<bar>)"
    by (rule dispatch_inflate [OF assms,
          where P = "\<lambda>v w. dist0 v > 0.001 \<longrightarrow>
                       w = scaled (2 - 0.5 / dist0 v) v \<and> dist0 w = \<bar>2 * dist0 v - 0.5\<bar>"])
      (rule inflate_zero_distance)
  show "\<exists>out'. dispatchWorkgroups (workgroups vc) (p\<lparr>param_value := 2\<rparr>) inp out = Inr out'
            \<and> length out' = 3 * vc
            \<and> (\<forall>idx<vc. dist0 (vertex_at inp idx) > 0.001 \<longrightarrow>
                  vertex_at out' idx = scaled (0.5 / dist0 (vertex_at inp idx)) (vertex_at inp idx)
                  \<and> dist0 (vertex_at out' idx) = 0.5)"
    by (rule dispatch_inflate [OF assms,
          where P = "\<lambda>v w. dist0 v > 0.001 \<longrightarrow>
                       w = scaled (0.5 / dist0 v) v \<and> dist0 w = 0.5"])
      (rule inflate_two_distance)
  show "\<exists>out'. dispatchWorkgroups (workgroups vc) (p\<lparr>param_value := pv\<rparr>) inp out = Inr out'
            \<and> length out' = 3 * vc
            \<and> (\<forall>idx<vc. dist0 (vertex_at inp idx) \<le> 0.001 \<longrightarrow>
                  vertex_at out' idx = vertex_at inp idx)"
    by (rule dispatch_inflate [OF assms, where P = "\<lambda>v w. dist0 v \<le> 0.001 \<longrightarrow> w = v"])
      (simp add: inflate_near_origin)
qed

theorem inflate_identity_extremes_and_guard_witness:
  "operation \<lparr>operation = 3, param_value = 0, vertex_count = 1, pad = 0\<rparr> = 3
   \<and> vertex_count \<lparr>operation = 3, param_value = 0, vertex_count = 1, pad = 0\<rparr> = of_nat 1
   \<and> 3 * (1::nat) < 2 ^ 32
   \<and> length [1, 0, 0 :: real] = 3 * 1
   \<and> length [0, 0, 0 :: real] = 3 * 1
   \<and> dist0 (vertex_at [1, 0, 0] 0) > 0.001
   \<and> dispatchWorkgroups (workgroups 1) \<lparr>operation = 3, param_value = 1, vertex_count = 1, pad = 0\<rparr>
        [1, 0, 0] [0, 0, 0] = Inr [1, 0, 0]
   \<and> (\<exists>out'. dispatchWorkgroups (workgroups 1)
                \<lparr>operation = 3, param_value = 2, vertex_count = 1, pad = 0\<rparr> [1, 0, 0] [0, 0, 0]
              = Inr out'
            \<and> vertex_at out' 0 = (0.5, 0, 0) \<and> dist0 (vertex_at out' 0) = 0.5)"
proof -
  have d: "dist0 (1, 0, 0) = 1"
    by (simp add: dist0_def)
  show ?thesis
    using inflate_identity_extremes_and_guard
      [of "\<lparr>operation = 3, param_value = 0, vertex_count = 1, pad = 0\<rparr>" 1 "[1, 0, 0]" "[0, 0, 0]" 0]
    by (auto simp: d scaled_def vertex_at_def)
qed

text \<open>
  The claim as it was stated fails: with \<open>param = 0\<close> the vertex \<open>(1, 0, 0)\<close>, at distance
  1 from the origin, is moved to \<open>(3/2, 0, 0)\<close>, at distance \<open>3/2\<close> and not \<open>1/2\<close>.
\<close>

theorem inflate_zero_counterexample:
  "dispatchWorkgroups (workgroups 1) \<lparr>operation = 3, param_value = 0, vertex_count = 1, pad = 0\<rparr>
     [1, 0, 0] [0, 0, 0] = Inr [3 / 2, 0, 0]
   \<and> dist0 (1, 0, 0) = 1
   \<and> dist0 (3 / 2, 0, 0) = 3 / 2
   \<and> dist0 (3 / 2, 0, 0) \<noteq> 0.5"
proof -
  have "dispatchWorkgroups (workgroups 1) \<lparr>operation = 3, param_value = 0, vertex_count = 1, pad = 0\<rparr>
     [1, 0, 0] [0, 0, 0] = Inr [3 / 2, 0, 0]"
    by (rule dispatch_pointwise) (simp_all add: vertex_at_def deform_inflate clamp_def)
  moreover have "dist0 (3 / 2, 0, 0) = 3 / 2"
    using real_sqrt_abs2 [of "3 / 2"] by (simp add: dist0_def)
  ultimately show ?thesis by (simp add: dist0_def)
qed

text \<open>
  Claim C10. For every \<open>param\<close>, operation 3 (Inflate) maps a vertex at distance exactly
  0.5 from the origin to itself.
\<close>

theorem inflate_fixes_sphere_of_radius_half:
  assumes "operation p = 3" "vertex_count p = of_nat vc" "3 * vc < 2 ^ 32"
    and "length inp = 3 * vc" "length out = 3 * vc"
  shows "\<exists>out'. dispatchWorkgroups (workgroups vc) p inp out = Inr out'
           \<and> length out' = 3 * vc
           \<and> (\<forall>idx<vc. dist0 (vertex_at inp idx) = 0.5 \<longrightarrow> vertex_at out' idx = vertex_at inp idx)"
  using dispatch_vertices [OF assms(2-5)] assms(1)
  by (auto simp: inflate_sphere_fixed)

theorem inflate_fixes_sphere_of_radius_half_witness:
  "operation \<lparr>operation = 3, param_value = 0, vertex_count = 1, pad = 0\<rparr> = 3
   \<and> vertex_count \<lparr>operation = 3, param_value = 0, vertex_count = 1, pad = 0\<rparr> = of_nat 1
   \<and> 3 * (1::nat) < 2 ^ 32
   \<and> length [0, 0.5, 0 :: real] = 3 * 1
   \<and> length [0, 0, 0 :: real] = 3 * 1
   \<and> dist0 (vertex_at [0, 0.5, 0] 0) = 0.5
   \<and> (\<exists>out'. dispatchWorkgroups (workgroups 1)
                \<lparr>operation = 3, param_value = 0, vertex_count = 1, pad = 0\<rparr> [0, 0.5, 0] [0, 0, 0]
              = Inr out'
            \<and> vertex_at out' 0 = (0, 0.5, 0))"
proof -
  have d: "dist0 (0, 1 / 2, 0) = 1 / 2"
    using real_sqrt_abs2 [of "1 / 2"] by (simp add: dist0_def)
  show ?thesis
    using inflate_fixes_sphere_of_radius_half
      [of "\<lparr>operation = 3, param_value = 0, vertex_count = 1, pad = 0\<rparr>" 1 "[0, 0.5, 0]" "[0, 0, 0]"]
    by (auto simp: d vertex_at_def)
qed

subsection \<open>The bounds guard and the size of the dispatch\<close>

lemma main_guard: "vertex_count p \<le> g \<Longrightarrow> main p i out g = Inr out"
  by (simp add: main_def)

text \<open>
  Claim C5. For \<open>vc \<ge> 1\<close> vertices the number of workgroups is the ceiling of \<open>vc / 64\<close>,
  the least number of groups of 64 that covers them. An invocation whose index is not
  below the vertex count returns the output buffer as it is, whatever the buffers are
  (even empty ones), so it reads and writes nothing. The dispatch ends without an access
  outside a buffer; it writes the first \<open>vc\<close> triples of the output buffer, whose new
  contents depend on the input only, and leaves the rest of the buffer as it was. On a
  ready engine \<^verbatim>\<open>processOperation\<close> ends without an error and the bound output buffer is
  the deformed input.
\<close>

theorem dispatch_covers_exactly_the_vertices:
  assumes "1 \<le> vc" "vertex_count p = of_nat vc" "3 * vc < 2 ^ 32"
    and "length inp = 3 * vc" "3 * vc \<le> length out"
  shows "int (workgroups vc) = \<lceil>real vc / 64\<rceil>
       \<and> vc \<le> workgroups vc * 64 \<and> workgroups vc * 64 < vc + 64
       \<and> (\<forall>g i out0. vertex_count p \<le> g \<longrightarrow> main p i out0 g = Inr out0)
       \<and> (\<exists>out'. dispatchWorkgroups (workgroups vc) p inp out = Inr out'
             \<and> length out' = length out
             \<and> take (3 * vc) out' = deformed p inp vc
             \<and> drop (3 * vc) out' = drop (3 * vc) out
             \<and> (\<forall>idx<vc. vertex_at out' idx
                           = deform (operation p) (param_value p) (vertex_at inp idx)))
       \<and> (ready st \<longrightarrow>
            (\<exists>st' md i out u xs. processOperation enc dec st name param = Inr st'
               \<and> meshData st = Some md \<and> bindGroup st = Some (i, out, u)
               \<and> gpu st ! i = FloatData xs
               \<and> gpu st' ! out =
                   FloatData (deformed
                     \<lparr>operation = ToUint32 (nullish (get_property OP_MAP name) (Number 0)),
                      param_value = dec (enc param),
                      vertex_count = of_nat (vertexCount md), pad = 0\<rparr> xs (vertexCount md))))"
proof (intro conjI impI)
  show "int (workgroups vc) = \<lceil>real vc / 64\<rceil>"
    unfolding workgroups_def by linarith
  show "vc \<le> workgroups vc * 64" "workgroups vc * 64 < vc + 64"
    by (rule workgroups_cover)+
  show "\<forall>g i out0. vertex_count p \<le> g \<longrightarrow> main p i out0 g = Inr out0"
    by (simp add: main_guard)
  let ?out' = "deformed p inp vc @ drop (3 * vc) out"
  have "dispatchWorkgroups (workgroups vc) p inp out = Inr ?out'"
    using assms(2-5) by (rule dispatch_deformed)
  moreover have "length ?out' = length out"
    using assms(5) by (simp add: length_deformed)
  moreover have "take (3 * vc) ?out' = deformed p inp vc" "drop (3 * vc) ?out' = drop (3 * vc) out"
    by (simp_all add: length_deformed)
  moreover have "\<forall>idx<vc. vertex_at ?out' idx
                           = deform (operation p) (param_value p) (vertex_at inp idx)"
    by (simp add: vertex_at_deformed)
  ultimately show "\<exists>out'. dispatchWorkgroups (workgroups vc) p inp out = Inr out'
             \<and> length out' = length out
             \<and> take (3 * vc) out' = deformed p inp vc
             \<and> drop (3 * vc) out' = drop (3 * vc) out
             \<and> (\<forall>idx<vc. vertex_at out' idx
                           = deform (operation p) (param_value p) (vertex_at inp idx))"
    by blast
next
  assume "ready st"
  then show "\<exists>st' md i out u xs. processOperation enc dec st name param = Inr st'
               \<and> meshData st = Some md \<and> bindGroup st = Some (i, out, u)
               \<and> gpu st ! i = FloatData xs
               \<and> gpu st' ! out =
                   FloatData (deformed
                     \<lparr>operation = ToUint32 (nullish (get_property OP_MAP name) (Number 0)),
                      param_value = dec (enc param),
                      vertex_count = of_nat (vertexCount md), pad = 0\<rparr> xs (vertexCount md))"
    using processOperation_result [of st enc dec name param] by blast
qed

theorem dispatch_covers_exactly_the_vertices_witness:
  "(1::nat) \<le> 8
   \<and> vertex_count \<lparr>operation = 0, param_value = 2, vertex_count = 8, pad = 0\<rparr> = of_nat 8
   \<and> 3 * (8::nat) < 2 ^ 32
   \<and> length cube_positions = 3 * 8
   \<and> 3 * 8 \<le> length (replicate 24 (0::real) @ [7, 7])
   \<and> workgroups 8 = 1
   \<and> main \<lparr>operation = 0, param_value = 2, vertex_count = 8, pad = 0\<rparr> [] [] 8 = Inr []
   \<and> (\<exists>out'. dispatchWorkgroups (workgroups 8)
                \<lparr>operation = 0, param_value = 2, vertex_count = 8, pad = 0\<rparr>
                cube_positions (replicate 24 0 @ [7, 7]) = Inr out'
            \<and> length out' = 26 \<and> drop 24 out' = [7, 7])
   \<and> (case init_engine of
         Inl e \<Rightarrow> False
       | Inr st \<Rightarrow>
           ready st \<and> (\<exists>st'. processOperation (\<lambda>x. 0) (\<lambda>w. 0) st ''inflate'' 2 = Inr st'))"
proof -
  let ?p = "\<lparr>operation = 0, param_value = 2, vertex_count = 8, pad = 0\<rparr>"
  have h: "(1::nat) \<le> 8" "vertex_count ?p = of_nat 8" "3 * (8::nat) < 2 ^ 32"
    "length cube_positions = 3 * 8" "3 * 8 \<le> length (replicate 24 (0::real) @ [7, 7])"
    by (simp_all add: cube_positions_def)
  obtain st where i: "init_engine = Inr st"
    using init_engine_value by blast
  have r: "ready st"
    using init_engine_ready unfolding i by simp
  note T = dispatch_covers_exactly_the_vertices
      [OF h, where st = st and enc = "\<lambda>x. 0" and dec = "\<lambda>w. 0" and name = "''inflate''"
        and param = 2]
  from T have "8 \<le> workgroups 8 * 64" "workgroups 8 * 64 < 8 + 64"
    by blast+
  then have a: "workgroups 8 = 1"
    by simp
  from T have "\<forall>g i out0. vertex_count ?p \<le> g \<longrightarrow> main ?p i out0 g = Inr out0"
    by blast
  then have b: "main ?p [] [] 8 = Inr []"
    by simp
  from T have c: "\<exists>out'. dispatchWorkgroups (workgroups 8) ?p
                cube_positions (replicate 24 0 @ [7, 7]) = Inr out'
            \<and> length out' = 26 \<and> drop 24 out' = [7, 7]"
    by auto
  from T r have "\<exists>st'. processOperation (\<lambda>x. 0) (\<lambda>w. 0) st ''inflate'' 2 = Inr st'"
    by blast
  with r have d: "case init_engine of
         Inl e \<Rightarrow> False
       | Inr st \<Rightarrow>
           ready st \<and> (\<exists>st'. processOperation (\<lambda>x. 0) (\<lambda>w. 0) st ''inflate'' 2 = Inr st')"
    unfolding i sum.case by blast
  show ?thesis
    by (intro conjI h a b c d)
qed

section \<open>Properties of the viewport\<close>

lemma resize_zero_area: "w = 0 \<or> h = 0 \<Longrightarrow> resizeCanvas (layout w h r) = Inr (layout w h r)"
  by (auto simp: resizeCanvas_def layout_def)

lemma render_guard:
  "depthTexture r = None \<or> width (canvas r) = 0 \<Longrightarrow> render now r = Inr r"
  by (auto simp: render_def)

lemma run_events_idle:
  assumes "\<forall>e\<in>set es. zero_area e"
    and "depthTexture r = None \<or> width (canvas r) = 0"
  shows "\<exists>w h. run_events r es = Inr (r\<lparr>canvas := (canvas r)\<lparr>clientWidth := w, clientHeight := h\<rparr>\<rparr>)"
  using assms
proof (induction es arbitrary: r)
  case Nil
  have "r = r\<lparr>canvas := (canvas r)\<lparr>clientWidth := clientWidth (canvas r),
                                  clientHeight := clientHeight (canvas r)\<rparr>\<rparr>"
    by simp
  then show ?case
    by (metis run_events.simps(1))
next
  case (Cons e es)
  show ?case
  proof (cases e)
    case (Resize w h)
    then have z: "w = 0 \<or> h = 0"
      using Cons.prems(1) by simp
    have g: "depthTexture (layout w h r) = None \<or> width (canvas (layout w h r)) = 0"
      using Cons.prems(2) by (simp add: layout_def)
    obtain w' h' where rest:
      "run_events (layout w h r) es
         = Inr ((layout w h r)\<lparr>canvas := (canvas (layout w h r))\<lparr>clientWidth := w', clientHeight := h'\<rparr>\<rparr>)"
      using Cons.IH [OF _ g] Cons.prems(1) by auto
    have step: "handle r e = Inr (layout w h r)"
      by (simp add: Resize resize_zero_area [OF z])
    have same: "(layout w h r)\<lparr>canvas := (canvas (layout w h r))\<lparr>clientWidth := w', clientHeight := h'\<rparr>\<rparr>
                = r\<lparr>canvas := (canvas r)\<lparr>clientWidth := w', clientHeight := h'\<rparr>\<rparr>"
      by (simp add: layout_def)
    have "run_events r (e # es) = Inr (r\<lparr>canvas := (canvas r)\<lparr>clientWidth := w', clientHeight := h'\<rparr>\<rparr>)"
      unfolding run_events.simps step bind_result_def sum.case rest same ..
    then show ?thesis
      by blast
  next
    case (Frame now)
    then show ?thesis
      using Cons.IH [OF _ Cons.prems(2)] Cons.prems(1)
      by (simp add: render_guard [OF Cons.prems(2)] bind_result_def)
  qed
qed

lemma run_events_append:
  "run_events r (es @ fs) = bind_result (run_events r es) (\<lambda>r'. run_events r' fs)"
  by (induction es arbitrary: r) (auto simp: bind_result_def split: sum.splits)

lemma resize_then_frame:
  assumes "device r" "0 < w" "0 < h"
  shows "\<exists>r'. run_events r [Resize w h, Frame now] = Inr r'
              \<and> depthTexture r' = Some (w, h)
              \<and> width (canvas r') = w \<and> height (canvas r') = h
              \<and> length (submitted r') = length (submitted r) + 1"
  using assms
  by (simp add: bind_result_def resizeCanvas_def layout_def render_def Let_def)

lemma same_view_refl: "same_view r r"
  by (simp add: same_view_def)

lemma same_view_trans: "same_view a b \<Longrightarrow> same_view b c \<Longrightarrow> same_view a c"
  by (simp add: same_view_def)

lemma same_view_layout: "same_view r (layout w h r)"
  by (simp add: same_view_def layout_def)

lemma same_view_buildMVP: "same_view r r' \<Longrightarrow> buildMVP r' = buildMVP r"
  by (simp add: same_view_def buildMVP_def)

lemma same_view_render_pass: "same_view r r' \<Longrightarrow> render_pass r' = render_pass r"
  by (simp add: same_view_def render_pass_def)

lemma render_draws:
  assumes "depthTexture r \<noteq> None" "width (canvas r) \<noteq> 0" "device r"
  shows "\<exists>r'. render now r = Inr r' \<and> submitted r' = submitted r @ [render_pass r]
           \<and> mvpBuffer r' = buildMVP r \<and> same_view r r'"
  using assms by (simp add: render_def Let_def render_pass_def same_view_def)

lemma run_events_sized:
  assumes "list_all zero_area es"
    and "depthTexture r \<noteq> None" "width (canvas r) \<noteq> 0" "device r"
  shows "\<exists>r'. run_events r es = Inr r'
           \<and> submitted r' = submitted r @ replicate (frames es) (render_pass r)
           \<and> mvpBuffer r' = (if frames es = 0 then mvpBuffer r else buildMVP r)
           \<and> same_view r r'"
  using assms
proof (induction es arbitrary: r)
  case Nil
  then show ?case by (simp add: same_view_refl)
next
  case (Cons e es)
  have rest: "list_all zero_area es"
    using Cons.prems(1) by simp
  show ?case
  proof (cases e)
    case (Resize w h)
    then have z: "w = 0 \<or> h = 0"
      using Cons.prems(1) by simp
    let ?r1 = "layout w h r"
    have step: "handle r e = Inr ?r1"
      by (simp add: Resize resize_zero_area [OF z])
    have v: "same_view r ?r1"
      by (rule same_view_layout)
    have inv: "depthTexture ?r1 \<noteq> None" "width (canvas ?r1) \<noteq> 0" "device ?r1"
      using Cons.prems(2-4) by (simp_all add: layout_def)
    obtain r' where ih: "run_events ?r1 es = Inr r'"
      "submitted r' = submitted ?r1 @ replicate (frames es) (render_pass ?r1)"
      "mvpBuffer r' = (if frames es = 0 then mvpBuffer ?r1 else buildMVP ?r1)"
      "same_view ?r1 r'"
      using Cons.IH [OF rest inv] by blast
    have run: "run_events r (e # es) = Inr r'"
      by (simp add: step ih(1) bind_result_def)
    have k: "render_pass ?r1 = render_pass r" "buildMVP ?r1 = buildMVP r"
      "submitted ?r1 = submitted r" "mvpBuffer ?r1 = mvpBuffer r"
      using same_view_render_pass [OF v] same_view_buildMVP [OF v] by (simp_all add: layout_def)
    have "submitted r' = submitted r @ replicate (frames (e # es)) (render_pass r)"
      using ih(2) unfolding k by (simp add: Resize)
    moreover have "mvpBuffer r' = (if frames (e # es) = 0 then mvpBuffer r else buildMVP r)"
      using ih(3) unfolding k by (simp add: Resize)
    moreover have "same_view r r'"
      using v ih(4) by (rule same_view_trans)
    ultimately show ?thesis
      using run by blast
  next
    case (Frame now)
    obtain r1 where d: "render now r = Inr r1" "submitted r1 = submitted r @ [render_pass r]"
      "mvpBuffer r1 = buildMVP r" "same_view r r1"
      using render_draws [OF Cons.prems(2-4), of now] by blast
    have inv: "depthTexture r1 \<noteq> None" "width (canvas r1) \<noteq> 0" "device r1"
      using Cons.prems(2-4) d(4) by (simp_all add: same_view_def)
    obtain r' where ih: "run_events r1 es = Inr r'"
      "submitted r' = submitted r1 @ replicate (frames es) (render_pass r1)"
      "mvpBuffer r' = (if frames es = 0 then mvpBuffer r1 else buildMVP r1)"
      "same_view r1 r'"
      using Cons.IH [OF rest inv] by blast
    have run: "run_events r (e # es) = Inr r'"
      by (simp add: Frame d(1) ih(1) bind_result_def)
    have "submitted r' = submitted r @ replicate (frames (e # es)) (render_pass r)"
      using ih(2) d(2) by (simp add: Frame same_view_render_pass [OF d(4)])
    moreover have "mvpBuffer r' = (if frames (e # es) = 0 then mvpBuffer r else buildMVP r)"
      using ih(3) d(3) by (simp add: Frame same_view_buildMVP [OF d(4)])
    moreover have "same_view r r'"
      using d(4) ih(4) by (rule same_view_trans)
    ultimately show ?thesis
      using run by blast
  qed
qed

text \<open>
  Claim C9, as the code has it. A resize to zero area does not throw: \<^verbatim>\<open>resizeCanvas\<close>
  returns with the canvas size and the depth texture it had. If the depth texture has
  not been created or the canvas width is 0, every \<^verbatim>\<open>render\<close> through any sequence of
  zero-area resizes and frames changes nothing, so no matrix is built and nothing is
  submitted, until a resize to a non-zero area creates the depth texture and the next
  frame submits one render pass. If the surface has been sized before (the depth
  texture exists and the canvas width is not 0), zero-area resizes keep that size and
  texture and every frame goes on building the matrix and submitting one render pass.
\<close>

theorem zero_area_resize_keeps_surface:
  assumes "list_all zero_area es"
  shows "(w = 0 \<or> h = 0 \<longrightarrow>
            resizeCanvas (layout w h r0) = Inr (layout w h r0)
            \<and> width (canvas (layout w h r0)) = width (canvas r0)
            \<and> height (canvas (layout w h r0)) = height (canvas r0)
            \<and> depthTexture (layout w h r0) = depthTexture r0)
       \<and> (depthTexture r = None \<or> width (canvas r) = 0 \<longrightarrow>
            (\<exists>r'. run_events r es = Inr r'
               \<and> submitted r' = submitted r \<and> mvpBuffer r' = mvpBuffer r
               \<and> frameCount r' = frameCount r \<and> depthTexture r' = depthTexture r
               \<and> width (canvas r') = width (canvas r) \<and> height (canvas r') = height (canvas r))
            \<and> (device r \<and> 0 < w' \<and> 0 < h' \<longrightarrow>
                 (\<exists>r''. run_events r (es @ [Resize w' h', Frame now]) = Inr r''
                    \<and> depthTexture r'' = Some (w', h')
                    \<and> length (submitted r'') = length (submitted r) + 1)))
       \<and> (depthTexture r \<noteq> None \<and> width (canvas r) \<noteq> 0 \<and> device r \<longrightarrow>
            (\<exists>r'. run_events r es = Inr r'
               \<and> submitted r' = submitted r @ replicate (frames es) (render_pass r)
               \<and> mvpBuffer r' = (if frames es = 0 then mvpBuffer r else buildMVP r)
               \<and> depthTexture r' = depthTexture r
               \<and> width (canvas r') = width (canvas r) \<and> height (canvas r') = height (canvas r)))"
proof (intro conjI impI)
  assume "w = 0 \<or> h = 0"
  then show "resizeCanvas (layout w h r0) = Inr (layout w h r0)"
    by (rule resize_zero_area)
  show "width (canvas (layout w h r0)) = width (canvas r0)"
    "height (canvas (layout w h r0)) = height (canvas r0)"
    "depthTexture (layout w h r0) = depthTexture r0"
    by (simp_all add: layout_def)
next
  assume g: "depthTexture r = None \<or> width (canvas r) = 0"
  have "\<forall>e\<in>set es. zero_area e"
    using assms by (simp add: list_all_iff)
  then obtain cw ch where
    idle: "run_events r es = Inr (r\<lparr>canvas := (canvas r)\<lparr>clientWidth := cw, clientHeight := ch\<rparr>\<rparr>)"
    using run_events_idle [OF _ g] by blast
  then show "\<exists>r'. run_events r es = Inr r'
               \<and> submitted r' = submitted r \<and> mvpBuffer r' = mvpBuffer r
               \<and> frameCount r' = frameCount r \<and> depthTexture r' = depthTexture r
               \<and> width (canvas r') = width (canvas r) \<and> height (canvas r') = height (canvas r)"
    by simp
  assume d: "device r \<and> 0 < w' \<and> 0 < h'"
  let ?r1 = "r\<lparr>canvas := (canvas r)\<lparr>clientWidth := cw, clientHeight := ch\<rparr>\<rparr>"
  obtain r'' where "run_events ?r1 [Resize w' h', Frame now] = Inr r''"
    "depthTexture r'' = Some (w', h')" "length (submitted r'') = length (submitted ?r1) + 1"
    using resize_then_frame [of ?r1 w' h' now] d by auto
  then show "\<exists>r''. run_events r (es @ [Resize w' h', Frame now]) = Inr r''
               \<and> depthTexture r'' = Some (w', h')
               \<and> length (submitted r'') = length (submitted r) + 1"
    by (simp add: run_events_append idle bind_result_def)
next
  assume s: "depthTexture r \<noteq> None \<and> width (canvas r) \<noteq> 0 \<and> device r"
  then obtain r' where "run_events r es = Inr r'"
    "submitted r' = submitted r @ replicate (frames es) (render_pass r)"
    "mvpBuffer r' = (if frames es = 0 then mvpBuffer r else buildMVP r)"
    "same_view r r'"
    using run_events_sized [OF assms, of r] by blast
  then show "\<exists>r'. run_events r es = Inr r'
               \<and> submitted r' = submitted r @ replicate (frames es) (render_pass r)
               \<and> mvpBuffer r' = (if frames es = 0 then mvpBuffer r else buildMVP r)
               \<and> depthTexture r' = depthTexture r
               \<and> width (canvas r') = width (canvas r) \<and> height (canvas r') = height (canvas r)"
    unfolding same_view_def by blast
qed

theorem zero_area_resize_keeps_surface_witness:
  "list_all zero_area [Resize 0 600, Frame 16, Resize 800 0, Frame 33, Resize 0 0, Frame 50]
   \<and> depthTexture ((new_Renderer \<lparr>clientWidth = 0, clientHeight = 0, width = 300, height = 150\<rparr> 0)
                     \<lparr>device := True\<rparr>) = None
   \<and> (\<exists>r'. run_events ((new_Renderer \<lparr>clientWidth = 0, clientHeight = 0, width = 300, height = 150\<rparr> 0)
                          \<lparr>device := True\<rparr>)
               [Resize 0 600, Frame 16, Resize 800 0, Frame 33, Resize 0 0, Frame 50] = Inr r'
          \<and> submitted r' = [] \<and> mvpBuffer r' = replicate 16 0 \<and> depthTexture r' = None)
   \<and> (\<exists>r''. run_events ((new_Renderer \<lparr>clientWidth = 0, clientHeight = 0, width = 300, height = 150\<rparr> 0)
                          \<lparr>device := True\<rparr>)
               ([Resize 0 600, Frame 16, Resize 800 0, Frame 33, Resize 0 0, Frame 50]
                @ [Resize 800 600, Frame 66]) = Inr r''
          \<and> depthTexture r'' = Some (800, 600) \<and> length (submitted r'') = 1)
   \<and> depthTexture ((new_Renderer \<lparr>clientWidth = 800, clientHeight = 600, width = 800, height = 600\<rparr> 0)
                     \<lparr>device := True, depthTexture := Some (800, 600)\<rparr>) \<noteq> None
   \<and> (\<exists>r'. run_events ((new_Renderer \<lparr>clientWidth = 800, clientHeight = 600, width = 800, height = 600\<rparr> 0)
                          \<lparr>device := True, depthTexture := Some (800, 600)\<rparr>)
               [Resize 0 600, Frame 16, Resize 800 0, Frame 33, Resize 0 0, Frame 50] = Inr r'
          \<and> submitted r' = [None, None, None] \<and> depthTexture r' = Some (800, 600)
          \<and> width (canvas r') = 800 \<and> height (canvas r') = 600)"
proof -
  let ?r = "(new_Renderer \<lparr>clientWidth = 0, clientHeight = 0, width = 300, height = 150\<rparr> 0)
              \<lparr>device := True\<rparr>"
  let ?q = "(new_Renderer \<lparr>clientWidth = 800, clientHeight = 600, width = 800, height = 600\<rparr> 0)
              \<lparr>device := True, depthTexture := Some (800, 600)\<rparr>"
  let ?es = "[Resize 0 600, Frame 16, Resize 800 0, Frame 33, Resize 0 0, Frame 50]"
  have z: "list_all zero_area ?es"
    by simp
  have n: "depthTexture ?r = None"
    by (simp add: new_Renderer_def)
  have s: "submitted ?r = []" "mvpBuffer ?r = replicate 16 0" "device ?r"
    by (simp_all add: new_Renderer_def)
  note T = zero_area_resize_keeps_surface
      [OF z, where w = 0 and h = 0 and ?r0.0 = ?r and r = ?r and now = 66 and w' = 800 and h' = 600]
  have g: "depthTexture ?r = None \<or> width (canvas ?r) = 0"
    using n by simp
  have dv: "device ?r \<and> (0::nat) < 800 \<and> (0::nat) < 600"
    using s(3) by simp
  from T g obtain r' where "run_events ?r ?es = Inr r'"
    "submitted r' = submitted ?r" "mvpBuffer r' = mvpBuffer ?r" "depthTexture r' = depthTexture ?r"
    by blast
  then have a: "\<exists>r'. run_events ?r ?es = Inr r'
          \<and> submitted r' = [] \<and> mvpBuffer r' = replicate 16 0 \<and> depthTexture r' = None"
    unfolding s(1,2) n by blast
  from T g dv obtain r'' where "run_events ?r (?es @ [Resize 800 600, Frame 66]) = Inr r''"
    "depthTexture r'' = Some (800, 600)" "length (submitted r'') = length (submitted ?r) + 1"
    by blast
  then have b: "\<exists>r''. run_events ?r (?es @ [Resize 800 600, Frame 66]) = Inr r''
          \<and> depthTexture r'' = Some (800, 600) \<and> length (submitted r'') = 1"
    unfolding s(1) by auto
  have q: "depthTexture ?q \<noteq> None" "width (canvas ?q) \<noteq> 0" "device ?q"
    by (simp_all add: new_Renderer_def)
  have k: "submitted ?q = []" "render_pass ?q = None" "frames ?es = 3"
    "depthTexture ?q = Some (800, 600)" "width (canvas ?q) = 800" "height (canvas ?q) = 600"
    by (simp_all add: new_Renderer_def render_pass_def)
  note U = zero_area_resize_keeps_surface
      [OF z, where w = 0 and h = 0 and ?r0.0 = ?q and r = ?q and now = 66 and w' = 800 and h' = 600]
  have qq: "depthTexture ?q \<noteq> None \<and> width (canvas ?q) \<noteq> 0 \<and> device ?q"
    using q by simp
  from U qq obtain r' where "run_events ?q ?es = Inr r'"
    "submitted r' = submitted ?q @ replicate (frames ?es) (render_pass ?q)"
    "depthTexture r' = depthTexture ?q"
    "width (canvas r') = width (canvas ?q)" "height (canvas r') = height (canvas ?q)"
    by blast
  then have c: "\<exists>r'. run_events ?q ?es = Inr r'
          \<and> submitted r' = [None, None, None] \<and> depthTexture r' = Some (800, 600)
          \<and> width (canvas r') = 800 \<and> height (canvas r') = 600"
    unfolding k by (simp add: numeral_3_eq_3)
  show ?thesis
    by (intro conjI z n a b q(1) c)
qed

text \<open>
  The claim as it was stated fails on a surface that has been sized: after a resize to
  800 by 600 a resize to zero area leaves the canvas size and the depth texture, and the
  next \<^verbatim>\<open>render\<close> builds the matrix and submits a render pass.
\<close>

theorem zero_area_resize_counterexample:
  "run_events
     ((new_Renderer \<lparr>clientWidth = 0, clientHeight = 0, width = 300, height = 150\<rparr> 0)
        \<lparr>device := True\<rparr>)
     [Resize 800 600, Resize 0 0]
   = Inr ((new_Renderer \<lparr>clientWidth = 0, clientHeight = 0, width = 800, height = 600\<rparr> 0)
            \<lparr>device := True, depthTexture := Some (800, 600)\<rparr>)
   \<and> render 50 ((new_Renderer \<lparr>clientWidth = 0, clientHeight = 0, width = 800, height = 600\<rparr> 0)
                  \<lparr>device := True, depthTexture := Some (800, 600)\<rparr>)
     = Inr ((new_Renderer \<lparr>clientWidth = 0, clientHeight = 0, width = 800, height = 600\<rparr> 0)
              \<lparr>device := True, depthTexture := Some (800, 600),
                mvpBuffer := buildMVP
                  ((new_Renderer \<lparr>clientWidth = 0, clientHeight = 0, width = 800, height = 600\<rparr> 0)
                     \<lparr>device := True, depthTexture := Some (800, 600)\<rparr>),
                submitted := [None], frameCount := 1\<rparr>)
   \<and> render 50 ((new_Renderer \<lparr>clientWidth = 0, clientHeight = 0, width = 800, height = 600\<rparr> 0)
                  \<lparr>device := True, depthTexture := Some (800, 600)\<rparr>)
     \<noteq> Inr ((new_Renderer \<lparr>clientWidth = 0, clientHeight = 0, width = 800, height = 600\<rparr> 0)
              \<lparr>device := True, depthTexture := Some (800, 600)\<rparr>)"
  by (simp add: bind_result_def resizeCanvas_def layout_def render_def new_Renderer_def Let_def)

end
